theory Spec2Isabelle
  imports Main "HOL-Library.Sublist"
begin

section \<open>JW Time website script (src/js/main.js)\<close>

text \<open>
  The script is a set of four module objects (\<open>Theme\<close>, \<open>Language\<close>, \<open>Navigation\<close>,
  \<open>Utils\<close>) that read and mutate browser state: the element tree, \<open>localStorage\<close>,
  \<open>window.location\<close>, the colour-scheme media query, the clipboard and the timer queue.
  The embedding passes that state explicitly as a record \<open>page\<close>; every method becomes a
  function from \<open>page\<close> to \<open>page\<close> (or to the value it returns).

  Elements live in a store (\<open>nodes\<close>), and an element reference is its index in the store,
  so two variables of the script that hold the same element are the same index. Elements
  made by the parser are stored in document order; \<open>document.createElement\<close> allocates the
  next index. JavaScript strings are modelled as \<open>string\<close>.
\<close>

subsection \<open>Strings\<close>

text \<open>\<open>s.includes(t)\<close> on strings: \<open>t\<close> occurs in \<open>s\<close> as a contiguous run.\<close>

fun str_includes :: "string \<Rightarrow> string \<Rightarrow> bool" where
  "str_includes [] t = (t = [])"
| "str_includes (c # s) t = (prefix t (c # s) \<or> str_includes s t)"

text \<open>\<open>s.split(sep)\<close> for a one-character separator: never the empty array.\<close>

fun str_split :: "char \<Rightarrow> string \<Rightarrow> string list" where
  "str_split sep [] = [[]]"
| "str_split sep (c # cs) =
     (if c = sep then [] # str_split sep cs
      else (case str_split sep cs of
              [] \<Rightarrow> [[c]]
            | p # ps \<Rightarrow> (c # p) # ps))"

text \<open>\<open>a || b\<close> on strings: the empty string is falsy.\<close>

definition str_or :: "string \<Rightarrow> string \<Rightarrow> string" where
  "str_or a b = (if a = [] then b else a)"

text \<open>
  \<open>String(v)\<close> for a value that is a string or \<open>null\<close>, as \<open>includes\<close> applies it to its
  argument.
\<close>

definition to_string :: "string option \<Rightarrow> string" where
  "to_string v = (case v of None \<Rightarrow> ''null'' | Some s \<Rightarrow> s)"

subsection \<open>Browser state\<close>

text \<open>
  Event listeners and continuations are closures in the script; here each is a constructor
  holding the element references the closure captured.
\<close>

datatype listener =
    MobileMenuClick nat nat   \<comment> \<open>captures \<open>nav\<close>, \<open>menuToggle\<close>\<close>
  | CopyClick nat nat         \<comment> \<open>captures \<open>codeBlock\<close>, \<open>button\<close>\<close>

datatype callback =
    CopyWritten nat           \<comment> \<open>the \<open>then\<close> continuation of \<open>writeText\<close>; captures \<open>button\<close>\<close>
  | CopyRevert nat            \<comment> \<open>the \<open>setTimeout\<close> callback; captures \<open>button\<close>\<close>

record element =
  tag :: string                           \<comment> \<open>local name, lower case\<close>
  elem_id :: "string option"              \<comment> \<open>the \<open>id\<close> attribute\<close>
  classList :: "string list"              \<comment> \<open>the tokens of the \<open>class\<close> attribute\<close>
  attrs :: "string \<rightharpoonup> string"              \<comment> \<open>the other attributes\<close>
  hostname :: string                      \<comment> \<open>of an anchor: the host of its resolved URL\<close>
  textContent :: string
  innerHTML :: string
  style :: "string \<rightharpoonup> string"
  parent :: "nat option"                  \<comment> \<open>\<open>parentElement\<close>\<close>
  listeners :: "(string \<times> listener) list"  \<comment> \<open>event type and handler, in registration order\<close>

record page =
  nodes :: "element list"
  body :: nat                             \<comment> \<open>\<open>document.body\<close>\<close>
  storage :: "string \<rightharpoonup> string"            \<comment> \<open>\<open>localStorage\<close>\<close>
  pathname :: string                      \<comment> \<open>\<open>window.location.pathname\<close>\<close>
  page_hostname :: string                 \<comment> \<open>\<open>window.location.hostname\<close>\<close>
  prefersDark :: bool                     \<comment> \<open>\<open>matchMedia('(prefers-color-scheme: dark)').matches\<close>\<close>
  navigation :: "string option"           \<comment> \<open>the URL last assigned to \<open>window.location.href\<close>\<close>
  clipboard :: string
  clipboard_pending :: "(string \<times> callback) list"  \<comment> \<open>unsettled \<open>writeText\<close> promises\<close>
  timers :: "(nat \<times> callback) list"       \<comment> \<open>\<open>setTimeout\<close> queue: delay in ms and callback\<close>

subsection \<open>Language\<close>

definition LANG_STORAGE_KEY :: string where
  "LANG_STORAGE_KEY = ''jwtime-lang''"

definition SUPPORTED :: "string list" where
  "SUPPORTED = [''it'', ''en'', ''es'', ''de'', ''fr'', ''pt_BR'']"

definition save :: "string \<Rightarrow> page \<Rightarrow> page" where
  "save lang s =
     (if lang \<in> set SUPPORTED
      then s\<lparr>storage := (storage s)(LANG_STORAGE_KEY \<mapsto> lang)\<rparr>
      else s)"

definition get :: "page \<Rightarrow> string option" where
  "get s = storage s LANG_STORAGE_KEY"

definition switch :: "string \<Rightarrow> page \<Rightarrow> page" where
  "switch newLang s =
     (if newLang \<notin> set SUPPORTED then s
      else
        let s1 = save newLang s;
            currentPath = pathname s1;
            basePath = (if str_includes currentPath ''/jwtime/'' then ''/jwtime/'' else ''/'');
            pathParts = str_split CHR ''/'' currentPath;
            currentPage = str_or (last pathParts) ''index.html''
        in s1\<lparr>navigation := Some (basePath @ newLang @ ''/'' @ currentPage)\<rparr>)"

text \<open>
  \<open>currentPath.match(/\/(it|en|es|de|fr|pt_BR)\//)\<close>: the leftmost position with a slash,
  one of the alternatives (tried in the order written) and a slash; the result is the
  captured group.
\<close>

definition LANG_PATTERN :: "string list" where
  "LANG_PATTERN = [''it'', ''en'', ''es'', ''de'', ''fr'', ''pt_BR'']"

fun match_alternative :: "string list \<Rightarrow> string \<Rightarrow> string option" where
  "match_alternative [] s = None"
| "match_alternative (a # as) s =
     (if prefix (a @ ''/'') s then Some a else match_alternative as s)"

fun lang_match :: "string \<Rightarrow> string option" where
  "lang_match [] = None"
| "lang_match (c # cs) =
     (if c = CHR ''/'' then
        (case match_alternative LANG_PATTERN cs of
           Some l \<Rightarrow> Some l
         | None \<Rightarrow> lang_match cs)
      else lang_match cs)"

definition detectAndSaveCurrentLanguage :: "page \<Rightarrow> page" where
  "detectAndSaveCurrentLanguage s =
     (case lang_match (pathname s) of
        Some l \<Rightarrow> save l s
      | None \<Rightarrow> s)"

subsection \<open>Elements\<close>

definition update_node :: "nat \<Rightarrow> (element \<Rightarrow> element) \<Rightarrow> page \<Rightarrow> page" where
  "update_node i f s = s\<lparr>nodes := (nodes s)[i := f (nodes s ! i)]\<rparr>"

text \<open>\<open>classList.add\<close>, \<open>remove\<close> and \<open>toggle\<close> for one token.\<close>

definition classList_add :: "string \<Rightarrow> element \<Rightarrow> element" where
  "classList_add c e =
     (if c \<in> set (classList e) then e else e\<lparr>classList := classList e @ [c]\<rparr>)"

definition classList_remove :: "string \<Rightarrow> element \<Rightarrow> element" where
  "classList_remove c e = e\<lparr>classList := removeAll c (classList e)\<rparr>"

definition classList_toggle :: "string \<Rightarrow> element \<Rightarrow> element" where
  "classList_toggle c e =
     (if c \<in> set (classList e) then classList_remove c e else classList_add c e)"

definition classList_contains :: "element \<Rightarrow> string \<Rightarrow> bool" where
  "classList_contains e c = (c \<in> set (classList e))"

definition getAttribute :: "element \<Rightarrow> string \<Rightarrow> string option" where
  "getAttribute e a = attrs e a"

definition setAttribute :: "string \<Rightarrow> string \<Rightarrow> element \<Rightarrow> element" where
  "setAttribute a v e = e\<lparr>attrs := (attrs e)(a \<mapsto> v)\<rparr>"

definition addEventListener :: "string \<Rightarrow> listener \<Rightarrow> element \<Rightarrow> element" where
  "addEventListener ev h e = e\<lparr>listeners := listeners e @ [(ev, h)]\<rparr>"

definition getElementById :: "string \<Rightarrow> page \<Rightarrow> nat option" where
  "getElementById i s =
     List.find (\<lambda>k. elem_id (nodes s ! k) = Some i) [0..<length (nodes s)]"

text \<open>
  The selectors the script uses: a compound selector (every condition holds of the
  element), or two compounds joined by the descendant combinator.
\<close>

datatype cond = Tag string | Class string | AttrPrefix string string

datatype selector = Compound "cond list" | Descendant "cond list" "cond list"

fun holds :: "element \<Rightarrow> cond \<Rightarrow> bool" where
  "holds e (Tag t) = (tag e = t)"
| "holds e (Class c) = (c \<in> set (classList e))"
| "holds e (AttrPrefix a p) = (case attrs e a of None \<Rightarrow> False | Some v \<Rightarrow> prefix p v)"

definition compound :: "cond list \<Rightarrow> element \<Rightarrow> bool" where
  "compound cs e = list_all (holds e) cs"

text \<open>
  Some proper ancestor satisfies \<open>P\<close>. The walk up the parent references is bounded by the
  size of the store, which no chain of ancestors in a tree exceeds.
\<close>

fun has_ancestor :: "nat \<Rightarrow> element list \<Rightarrow> (element \<Rightarrow> bool) \<Rightarrow> nat option \<Rightarrow> bool" where
  "has_ancestor 0 ns P p = False"
| "has_ancestor (Suc k) ns P None = False"
| "has_ancestor (Suc k) ns P (Some i) =
     (i < length ns \<and> (P (ns ! i) \<or> has_ancestor k ns P (parent (ns ! i))))"

fun matches :: "element list \<Rightarrow> selector \<Rightarrow> nat \<Rightarrow> bool" where
  "matches ns (Compound cs) i = compound cs (ns ! i)"
| "matches ns (Descendant as cs) i =
     (compound cs (ns ! i) \<and> has_ancestor (length ns) ns (compound as) (parent (ns ! i)))"

definition querySelectorAll :: "selector \<Rightarrow> page \<Rightarrow> nat list" where
  "querySelectorAll sel s = filter (matches (nodes s) sel) [0..<length (nodes s)]"

definition querySelector :: "selector \<Rightarrow> page \<Rightarrow> nat option" where
  "querySelector sel s = List.find (matches (nodes s) sel) [0..<length (nodes s)]"

definition new_element :: "string \<Rightarrow> element" where
  "new_element t =
     \<lparr>tag = t, elem_id = None, classList = [], attrs = Map.empty, hostname = [],
      textContent = [], innerHTML = [], style = Map.empty, parent = None, listeners = []\<rparr>"

definition createElement :: "string \<Rightarrow> page \<Rightarrow> page" where
  "createElement t s = s\<lparr>nodes := nodes s @ [new_element t]\<rparr>"

subsection \<open>Theme\<close>

definition THEME_STORAGE_KEY :: string where
  "THEME_STORAGE_KEY = ''jwtime-theme''"

definition DARK :: string where
  "DARK = ''dark''"

definition LIGHT :: string where
  "LIGHT = ''light''"

definition AUTO :: string where
  "AUTO = ''auto''"

definition getSavedTheme :: "page \<Rightarrow> string option" where
  "getSavedTheme s = storage s THEME_STORAGE_KEY"

definition saveTheme :: "string \<Rightarrow> page \<Rightarrow> page" where
  "saveTheme theme s = s\<lparr>storage := (storage s)(THEME_STORAGE_KEY \<mapsto> theme)\<rparr>"

definition applyTheme :: "string \<Rightarrow> page \<Rightarrow> page" where
  "applyTheme theme s =
     (let s1 = update_node (body s)
                 (\<lambda>e. classList_remove ''light-theme'' (classList_remove ''dark-theme'' e)) s
      in if theme = DARK then update_node (body s1) (classList_add ''dark-theme'') s1
         else if theme = LIGHT then update_node (body s1) (classList_add ''light-theme'') s1
         else s1)"

definition applySystemTheme :: "page \<Rightarrow> page" where
  "applySystemTheme s = applyTheme (if prefersDark s then DARK else LIGHT) s"

definition getCurrentTheme :: "page \<Rightarrow> string" where
  "getCurrentTheme s =
     (if classList_contains (nodes s ! body s) ''dark-theme'' then DARK
      else if classList_contains (nodes s ! body s) ''light-theme'' then LIGHT
      else (if prefersDark s then DARK else LIGHT))"

definition sunIcon :: string where
  \<open>sunIcon =
     ''<svg xmlns="http://www.w3.org/2000/svg" viewBox="0 0 24 24" fill="currentColor">'' @ [CHR 0x0A] @
     ''                <path d="M12 2.25a.75.75 0 01.75.75v2.25a.75.75 0 01-1.5 0V3a.75'' @
     ''.75 0 01.75-.75zM7.5 12a4.5 4.5 0 119 0 4.5 4.5 0 01-9 0zM18.894 6.166a.75.75 0 '' @
     ''00-1.06-1.06l-1.591 1.59a.75.75 0 101.06 1.061l1.591-1.59zM21.75 12a.75.75 0 01-'' @
     ''.75.75h-2.25a.75.75 0 010-1.5H21a.75.75 0 01.75.75zM17.834 18.894a.75.75 0 001.0'' @
     ''6-1.06l-1.59-1.591a.75.75 0 10-1.061 1.06l1.59 1.591zM12 18a.75.75 0 01.75.75V21'' @
     ''a.75.75 0 01-1.5 0v-2.25A.75.75 0 0112 18zM7.758 17.303a.75.75 0 00-1.061-1.06l-'' @
     ''1.591 1.59a.75.75 0 001.06 1.061l1.591-1.59zM6 12a.75.75 0 01-.75.75H3a.75.75 0 '' @
     ''010-1.5h2.25A.75.75 0 016 12zM6.697 7.757a.75.75 0 001.06-1.06l-1.59-1.591a.75.7'' @
     ''5 0 00-1.061 1.06l1.59 1.591z"/>'' @ [CHR 0x0A] @
     ''            </svg>''\<close>

definition moonIcon :: string where
  \<open>moonIcon =
     ''<svg xmlns="http://www.w3.org/2000/svg" viewBox="0 0 24 24" fill="currentColor">'' @ [CHR 0x0A] @
     ''                <path fill-rule="evenodd" d="M9.528 1.718a.75.75 0 01.162.819A8.'' @
     ''97 8.97 0 009 6a9 9 0 009 9 8.97 8.97 0 003.463-.69.75.75 0 01.981.98 10.503 10.'' @
     ''503 0 01-9.694 6.46c-5.799 0-10.5-4.701-10.5-10.5 0-4.368 2.667-8.112 6.46-9.694'' @
     ''a.75.75 0 01.818.162z" clip-rule="evenodd"/>'' @ [CHR 0x0A] @
     ''            </svg>''\<close>

definition updateToggleButton :: "string \<Rightarrow> page \<Rightarrow> page" where
  "updateToggleButton theme s =
     (case getElementById ''theme-toggle'' s of
        None \<Rightarrow> s
      | Some toggleBtn \<Rightarrow>
          let s1 = update_node toggleBtn
                     (\<lambda>e. e\<lparr>innerHTML := (if theme = DARK then sunIcon else moonIcon)\<rparr>) s
          in update_node toggleBtn
               (setAttribute ''title''
                  (if theme = DARK then ''Switch to light mode'' else ''Switch to dark mode'')) s1)"

definition toggle :: "page \<Rightarrow> page" where
  "toggle s =
     (let currentTheme = getCurrentTheme s;
          newTheme = (if currentTheme = DARK then LIGHT else DARK)
      in updateToggleButton newTheme (saveTheme newTheme (applyTheme newTheme s)))"

subsection \<open>Navigation\<close>

text \<open>\<open>xs.forEach(f)\<close> is \<open>fold f xs\<close>: the callback runs on each item in order, on the state
  the previous call left.\<close>

text \<open>The body of the \<open>forEach\<close> callback of \<open>setActiveLink\<close>, on the element \<open>link\<close>.\<close>

definition markLink :: "string \<Rightarrow> element \<Rightarrow> element" where
  "markLink currentPath link =
     (let linkPath = getAttribute link ''href''
      in if str_includes currentPath (to_string linkPath) \<and> linkPath \<noteq> Some ''/''
         then classList_add ''active'' link
         else classList_remove ''active'' link)"

definition setActiveLink :: "page \<Rightarrow> page" where
  "setActiveLink s =
     (let currentPath = pathname s;
          navLinks = querySelectorAll (Descendant [Class ''nav''] [Tag ''a'']) s
      in fold (\<lambda>link. update_node link (markLink currentPath)) navLinks s)"

text \<open>The \<open>active\<close> marker of element \<open>i\<close>.\<close>

definition is_active :: "page \<Rightarrow> nat \<Rightarrow> bool" where
  "is_active s i = classList_contains (nodes s ! i) ''active''"

definition setupMobileMenu :: "page \<Rightarrow> page" where
  "setupMobileMenu s =
     (let menuToggle = getElementById ''mobile-menu-toggle'' s;
          nav = querySelector (Compound [Class ''nav'']) s
      in case (menuToggle, nav) of
           (Some mt, Some n) \<Rightarrow>
             update_node mt (addEventListener ''click'' (MobileMenuClick n mt)) s
         | _ \<Rightarrow> s)"

subsection \<open>Events, promises and timers\<close>

fun run_listener :: "listener \<Rightarrow> page \<Rightarrow> page" where
  "run_listener (MobileMenuClick nav menuToggle) s =
     update_node menuToggle (classList_toggle ''active'')
       (update_node nav (classList_toggle ''active'') s)"
| "run_listener (CopyClick codeBlock button) s =
     (let code = textContent (nodes s ! codeBlock)
      in s\<lparr>clipboard_pending := clipboard_pending s @ [(code, CopyWritten button)]\<rparr>)"

fun run_callback :: "callback \<Rightarrow> page \<Rightarrow> page" where
  "run_callback (CopyWritten button) s =
     (let s1 = update_node button (\<lambda>e. e\<lparr>textContent := ''Copied!''\<rparr>) s
      in s1\<lparr>timers := timers s1 @ [(2000, CopyRevert button)]\<rparr>)"
| "run_callback (CopyRevert button) s =
     update_node button (\<lambda>e. e\<lparr>textContent := ''Copy''\<rparr>) s"

text \<open>A click on element \<open>i\<close> runs its click listeners in registration order.\<close>

definition click :: "nat \<Rightarrow> page \<Rightarrow> page" where
  "click i s =
     fold run_listener
       (map snd (filter (\<lambda>l. fst l = ''click'') (listeners (nodes s ! i)))) s"

text \<open>
  The browser settles the \<open>k\<close>-th pending clipboard write: fulfilled (\<open>ok\<close>), the text is on
  the clipboard and the \<open>then\<close> continuation runs; rejected, nothing runs, as the script
  registers no rejection handler.
\<close>

definition settle_clipboard :: "nat \<Rightarrow> bool \<Rightarrow> page \<Rightarrow> page" where
  "settle_clipboard k ok s =
     (if k < length (clipboard_pending s) then
        let w = clipboard_pending s ! k;
            s1 = s\<lparr>clipboard_pending :=
                     take k (clipboard_pending s) @ drop (Suc k) (clipboard_pending s)\<rparr>
        in if ok then run_callback (snd w) (s1\<lparr>clipboard := fst w\<rparr>) else s1
      else s)"

text \<open>The \<open>k\<close>-th timer fires: it leaves the queue and its callback runs.\<close>

definition fire_timer :: "nat \<Rightarrow> page \<Rightarrow> page" where
  "fire_timer k s =
     (if k < length (timers s) then
        run_callback (snd (timers s ! k))
          (s\<lparr>timers := take k (timers s) @ drop (Suc k) (timers s)\<rparr>)
      else s)"

subsection \<open>Utils\<close>

definition COPY_BUTTON_STYLE :: "string \<rightharpoonup> string" where
  "COPY_BUTTON_STYLE =
     [''position'' \<mapsto> ''absolute'', ''top'' \<mapsto> ''8px'', ''right'' \<mapsto> ''8px'',
      ''padding'' \<mapsto> ''4px 8px'', ''font-size'' \<mapsto> ''0.8rem'',
      ''background'' \<mapsto> ''var(--accent-green)'', ''color'' \<mapsto> ''white'',
      ''border'' \<mapsto> ''none'', ''border-radius'' \<mapsto> ''4px'', ''cursor'' \<mapsto> ''pointer'']"

text \<open>
  The body of the \<open>forEach\<close> in \<open>addCopyButtonsToCodeBlocks\<close>. An element matched by
  \<open>pre code\<close> has a parent element, so the \<open>None\<close> branch is never taken on the items the
  loop visits.
\<close>

definition addCopyButton :: "nat \<Rightarrow> page \<Rightarrow> page" where
  "addCopyButton codeBlock s =
     (case parent (nodes s ! codeBlock) of
        None \<Rightarrow> s
      | Some pre \<Rightarrow>
          let button = length (nodes s);
              s1 = createElement ''button'' s;
              s2 = update_node button (\<lambda>e. e\<lparr>classList := [''copy-code-btn'']\<rparr>) s1;
              s3 = update_node button (\<lambda>e. e\<lparr>textContent := ''Copy''\<rparr>) s2;
              s4 = update_node button (\<lambda>e. e\<lparr>style := COPY_BUTTON_STYLE\<rparr>) s3;
              s5 = update_node pre (\<lambda>e. e\<lparr>style := (style e)(''position'' \<mapsto> ''relative'')\<rparr>) s4;
              s6 = update_node button (\<lambda>e. e\<lparr>parent := Some pre\<rparr>) s5
          in update_node button (addEventListener ''click'' (CopyClick codeBlock button)) s6)"

definition addCopyButtonsToCodeBlocks :: "page \<Rightarrow> page" where
  "addCopyButtonsToCodeBlocks s =
     fold addCopyButton (querySelectorAll (Descendant [Tag ''pre''] [Tag ''code'']) s) s"

definition setupExternalLinks :: "page \<Rightarrow> page" where
  "setupExternalLinks s =
     fold (\<lambda>link s.
             if \<not> str_includes (hostname (nodes s ! link)) (page_hostname s)
             then update_node link (setAttribute ''rel'' ''noopener noreferrer'')
                    (update_node link (setAttribute ''target'' ''_blank'') s)
             else s)
          (querySelectorAll (Compound [Tag ''a'', AttrPrefix ''href'' ''http'']) s) s"

subsection \<open>An example page\<close>

text \<open>
  A small document on which the theorems below are instantiated:
  \<^verbatim>\<open>
  <html>                                                        0
    <body class="light-theme">                                  1
      <nav class="nav">                                         2
        <a href="/en/manual.html">                              3
        <a href="/">                                            4
      </nav>
      <a href="https://docs.example.com/guide">                 5
      <a href="https://github.com/JWTime/jwtime">               6
      <button id="mobile-menu-toggle">                          7
      <button id="theme-toggle">                                8
      <pre><code>npm install</code></pre>                       9, 10
    </body>
  </html>
  \<close>
  served as \<open>https://example.com/en/manual.html\<close>.
\<close>

definition example_nodes :: "element list" where
  "example_nodes =
     [new_element ''html'',
      (new_element ''body'')\<lparr>classList := [''light-theme''], parent := Some 0\<rparr>,
      (new_element ''nav'')\<lparr>classList := [''nav''], parent := Some 1\<rparr>,
      (new_element ''a'')\<lparr>attrs := [''href'' \<mapsto> ''/en/manual.html''],
                           hostname := ''example.com'', parent := Some 2\<rparr>,
      (new_element ''a'')\<lparr>attrs := [''href'' \<mapsto> ''/''],
                           hostname := ''example.com'', parent := Some 2\<rparr>,
      (new_element ''a'')\<lparr>attrs := [''href'' \<mapsto> ''https://docs.example.com/guide''],
                           hostname := ''docs.example.com'', parent := Some 1\<rparr>,
      (new_element ''a'')\<lparr>attrs := [''href'' \<mapsto> ''https://github.com/JWTime/jwtime''],
                           hostname := ''github.com'', parent := Some 1\<rparr>,
      (new_element ''button'')\<lparr>elem_id := Some ''mobile-menu-toggle'', parent := Some 1\<rparr>,
      (new_element ''button'')\<lparr>elem_id := Some ''theme-toggle'', parent := Some 1\<rparr>,
      (new_element ''pre'')\<lparr>parent := Some 1\<rparr>,
      (new_element ''code'')\<lparr>textContent := ''npm install'', parent := Some 9\<rparr>]"

definition example_page :: page where
  "example_page =
     \<lparr>nodes = example_nodes, body = 1, storage = Map.empty,
      pathname = ''/en/manual.html'', page_hostname = ''example.com'',
      prefersDark = True, navigation = None, clipboard = [],
      clipboard_pending = [], timers = []\<rparr>"

text \<open>The same page with the navigation container already marked open in the markup.\<close>

definition open_nav_page :: page where
  "open_nav_page =
     example_page\<lparr>nodes :=
       example_nodes[2 := (new_element ''nav'')\<lparr>classList := [''nav'', ''active''],
                                               parent := Some 1\<rparr>]\<rparr>"

text \<open>A page of the \<open>html\<close> and \<open>body\<close> elements alone.\<close>

definition bare_page :: page where
  "bare_page = example_page\<lparr>nodes := take 2 example_nodes\<rparr>"

text \<open>The same page with anchor 5 pointing to a page of the site's own host.\<close>

definition own_host_page :: page where
  "own_host_page =
     example_page\<lparr>nodes :=
       example_nodes[5 := (new_element ''a'')\<lparr>attrs := [''href'' \<mapsto> ''https://example.com/news.html''],
                                             hostname := ''example.com'', parent := Some 1\<rparr>]\<rparr>"

text \<open>
  A page served as \<open>https://example.com/docs/null.html\<close> whose navigation holds an anchor
  without \<open>href\<close>:
  \<^verbatim>\<open>
  <html>                                  0
    <body>                                1
      <nav class="nav">                   2
        <a>Docs</a>                       3
        <a href="/docs/">Overview</a>     4
      </nav>
    </body>
  </html>
  \<close>
\<close>

definition hrefless_page :: page where
  "hrefless_page =
     \<lparr>nodes =
        [new_element ''html'',
         (new_element ''body'')\<lparr>parent := Some 0\<rparr>,
         (new_element ''nav'')\<lparr>classList := [''nav''], parent := Some 1\<rparr>,
         (new_element ''a'')\<lparr>hostname := ''example.com'', textContent := ''Docs'',
                              parent := Some 2\<rparr>,
         (new_element ''a'')\<lparr>attrs := [''href'' \<mapsto> ''/docs/''], hostname := ''example.com'',
                              textContent := ''Overview'', parent := Some 2\<rparr>],
      body = 1, storage = Map.empty,
      pathname = ''/docs/null.html'', page_hostname = ''example.com'',
      prefersDark = False, navigation = None, clipboard = [],
      clipboard_pending = [], timers = []\<rparr>"

section \<open>Properties\<close>

subsection \<open>Strings\<close>

lemma str_includes_sublist: "str_includes s t = sublist t s"
  by (induction s) (auto simp: sublist_Cons_right)

lemma str_split_not_Nil: "str_split sep s \<noteq> []"
  by (induction s) (auto split: list.splits)

lemma str_split_plain: "sep \<notin> set f \<Longrightarrow> str_split sep f = [f]"
  by (induction f) auto

lemma str_split_append:
  "str_split sep (d @ sep # f) = str_split sep d @ str_split sep f"
proof (induction d)
  case Nil
  show ?case by simp
next
  case (Cons c d)
  obtain p ps where "str_split sep d = p # ps"
    using str_split_not_Nil [of sep d] by (cases "str_split sep d") auto
  with Cons show ?case by simp
qed

lemma last_str_split: "sep \<notin> set f \<Longrightarrow> last (str_split sep (d @ sep # f)) = f"
  by (simp add: str_split_append str_split_plain)

lemma str_split_no_sep: "p \<in> set (str_split sep s) \<Longrightarrow> sep \<notin> set p"
proof (induction s arbitrary: p)
  case Nil
  then show ?case by simp
next
  case (Cons c cs)
  obtain q qs where q: "str_split sep cs = q # qs"
    using str_split_not_Nil [of sep cs] by (cases "str_split sep cs") auto
  show ?case
  proof (cases "c = sep")
    case True
    with Cons show ?thesis by auto
  next
    case False
    with Cons.prems q have "p = c # q \<or> p \<in> set qs" by auto
    with Cons.IH q False show ?thesis by auto
  qed
qed

lemma last_str_split_no_sep: "sep \<notin> set (last (str_split sep s))"
  using str_split_no_sep [of "last (str_split sep s)" sep s] str_split_not_Nil [of sep s]
  by simp

subsection \<open>Language\<close>

lemma SUPPORTED_set: "set SUPPORTED = {''it'', ''en'', ''es'', ''de'', ''fr'', ''pt_BR''}"
  by (simp add: SUPPORTED_def)

lemma match_alternative_mem: "match_alternative as s = Some l \<Longrightarrow> l \<in> set as"
  by (induction as) (auto split: if_splits)

lemma lang_match_mem: "lang_match p = Some l \<Longrightarrow> l \<in> set LANG_PATTERN"
  by (induction p) (auto split: if_splits option.splits dest: match_alternative_mem)

lemma switch_supported:
  "L \<in> set SUPPORTED \<Longrightarrow>
     switch L s =
       s\<lparr>storage := (storage s)(LANG_STORAGE_KEY \<mapsto> L),
         navigation :=
           Some ((if sublist ''/jwtime/'' (pathname s) then ''/jwtime/'' else ''/'')
                 @ L @ ''/'' @ str_or (last (str_split CHR ''/'' (pathname s))) ''index.html'')\<rparr>"
  by (simp add: switch_def save_def Let_def str_includes_sublist)

text \<open>
  Claim C2. For every supported language code \<open>L\<close>, \<open>switch(L)\<close> stores \<open>L\<close> under the
  language key and navigates to the current page's file name under the prefix of \<open>L\<close>:
  the file name is what follows the last slash of the path, or \<open>index.html\<close> when nothing
  follows it. From \<open>/it/manual.html\<close> the target is \<open>/L/manual.html\<close>, from \<open>/\<close> it is
  \<open>/L/index.html\<close>.
\<close>

theorem switch_navigates_same_page:
  "L \<in> set SUPPORTED \<Longrightarrow>
     (pathname s = dir @ ''/'' @ name \<and> CHR ''/'' \<notin> set name \<longrightarrow>
        switch L s =
          s\<lparr>storage := (storage s)(''jwtime-lang'' \<mapsto> L),
            navigation :=
              Some ((if sublist ''/jwtime/'' (pathname s) then ''/jwtime/'' else ''/'')
                    @ L @ ''/'' @ (if name = [] then ''index.html'' else name))\<rparr>)
     \<and> (pathname s = ''/it/manual.html'' \<longrightarrow>
          switch L s = s\<lparr>storage := (storage s)(''jwtime-lang'' \<mapsto> L),
                          navigation := Some (''/'' @ L @ ''/manual.html'')\<rparr>)
     \<and> (pathname s = ''/'' \<longrightarrow>
          switch L s = s\<lparr>storage := (storage s)(''jwtime-lang'' \<mapsto> L),
                          navigation := Some (''/'' @ L @ ''/index.html'')\<rparr>)"
proof (intro conjI impI)
  assume L: "L \<in> set SUPPORTED"
  {
    assume p: "pathname s = dir @ ''/'' @ name \<and> CHR ''/'' \<notin> set name"
    then have "last (str_split CHR ''/'' (pathname s)) = name"
      using last_str_split [where sep = "CHR ''/''" and f = name and d = dir] by simp
    with L show "switch L s =
          s\<lparr>storage := (storage s)(''jwtime-lang'' \<mapsto> L),
            navigation :=
              Some ((if sublist ''/jwtime/'' (pathname s) then ''/jwtime/'' else ''/'')
                    @ L @ ''/'' @ (if name = [] then ''index.html'' else name))\<rparr>"
      by (simp add: switch_supported str_or_def LANG_STORAGE_KEY_def)
  }
  {
    assume "pathname s = ''/it/manual.html''"
    with L show "switch L s = s\<lparr>storage := (storage s)(''jwtime-lang'' \<mapsto> L),
                          navigation := Some (''/'' @ L @ ''/manual.html'')\<rparr>"
      by (simp add: switch_supported str_or_def LANG_STORAGE_KEY_def sublist_code prefix_code)
  }
  {
    assume "pathname s = ''/''"
    with L show "switch L s = s\<lparr>storage := (storage s)(''jwtime-lang'' \<mapsto> L),
                          navigation := Some (''/'' @ L @ ''/index.html'')\<rparr>"
      by (simp add: switch_supported str_or_def LANG_STORAGE_KEY_def sublist_code prefix_code)
  }
qed

theorem switch_navigates_same_page_witness:
  "''en'' \<in> set SUPPORTED \<and> ''fr'' \<in> set SUPPORTED \<and>
   storage (switch ''en'' (example_page\<lparr>pathname := ''/it/manual.html''\<rparr>)) ''jwtime-lang''
     = Some ''en'' \<and>
   navigation (switch ''en'' (example_page\<lparr>pathname := ''/it/manual.html''\<rparr>))
     = Some ''/en/manual.html'' \<and>
   navigation (switch ''fr'' (example_page\<lparr>pathname := ''/''\<rparr>)) = Some ''/fr/index.html'' \<and>
   navigation (switch ''fr'' (example_page\<lparr>pathname := ''/jwtime/it/news.html''\<rparr>))
     = Some ''/jwtime/fr/news.html''"
proof -
  have en: "''en'' \<in> set SUPPORTED" and fr: "''fr'' \<in> set SUPPORTED"
    by (simp_all add: SUPPORTED_def)
  have jw: "sublist ''/jwtime/'' ''/jwtime/it/news.html''"
    by (simp add: sublist_code prefix_code)
  show ?thesis
    using en fr jw
      switch_navigates_same_page [OF en, where s = "example_page\<lparr>pathname := ''/it/manual.html''\<rparr>"]
      switch_navigates_same_page [OF fr, where s = "example_page\<lparr>pathname := ''/''\<rparr>"]
      switch_navigates_same_page [OF fr,
        where s = "example_page\<lparr>pathname := ''/jwtime/it/news.html''\<rparr>"
          and dir = "''/jwtime/it''" and name = "''news.html''"]
    by simp
qed

text \<open>
  Claim C5. The supported set is \<open>it, en, es, de, fr, pt_BR\<close>. Whichever of \<open>save(L)\<close>,
  \<open>switch(L)\<close> and \<open>detectAndSaveCurrentLanguage()\<close> runs, the storage is either left as it
  was or gets a supported code under the language key, and the navigation target is either
  left as it was or is the base path, a supported code, a slash and a file name. \<open>save\<close> and
  \<open>detectAndSaveCurrentLanguage\<close> never navigate; \<open>save(L)\<close> and \<open>switch(L)\<close> change storage
  or navigation only for a supported \<open>L\<close>.
\<close>

theorem only_supported_language_used:
  "set SUPPORTED = {''it'', ''en'', ''es'', ''de'', ''fr'', ''pt_BR''} \<and>
   (s' \<in> {save L s, switch L s, detectAndSaveCurrentLanguage s} \<longrightarrow>
      (storage s' = storage s \<or>
         (\<exists>l \<in> set SUPPORTED. storage s' = (storage s)(''jwtime-lang'' \<mapsto> l))) \<and>
      (navigation s' = navigation s \<or>
         (\<exists>l \<in> set SUPPORTED. \<exists>name. CHR ''/'' \<notin> set name \<and>
            navigation s' =
              Some ((if sublist ''/jwtime/'' (pathname s) then ''/jwtime/'' else ''/'')
                    @ l @ ''/'' @ name)))) \<and>
   navigation (save L s) = navigation s \<and>
   navigation (detectAndSaveCurrentLanguage s) = navigation s \<and>
   (navigation (switch L s) \<noteq> navigation s \<longrightarrow> L \<in> set SUPPORTED) \<and>
   (storage (switch L s) \<noteq> storage s \<longrightarrow> L \<in> set SUPPORTED) \<and>
   (storage (save L s) \<noteq> storage s \<longrightarrow> L \<in> set SUPPORTED)"
proof -
  have sv: "\<And>x. storage (save x s) = storage s \<or>
         (\<exists>l \<in> set SUPPORTED. storage (save x s) = (storage s)(''jwtime-lang'' \<mapsto> l))"
    by (auto simp: save_def LANG_STORAGE_KEY_def)
  have nsv: "\<And>l. navigation (save l s) = navigation s"
    by (simp add: save_def)
  have det: "detectAndSaveCurrentLanguage s = s \<or> (\<exists>l. detectAndSaveCurrentLanguage s = save l s)"
    by (auto simp: detectAndSaveCurrentLanguage_def split: option.splits)
  have nofile: "CHR ''/'' \<notin> set (str_or (last (str_split CHR ''/'' (pathname s))) ''index.html'')"
    using last_str_split_no_sep [of "CHR ''/''" "pathname s"] by (simp add: str_or_def)
  have sw: "L \<notin> set SUPPORTED \<Longrightarrow> switch L s = s"
    by (simp add: switch_def)
  have sw_st: "storage (switch L s) = storage s \<or>
         (\<exists>l \<in> set SUPPORTED. storage (switch L s) = (storage s)(''jwtime-lang'' \<mapsto> l))"
    by (cases "L \<in> set SUPPORTED") (auto simp: switch_supported sw LANG_STORAGE_KEY_def)
  have sw_nav: "navigation (switch L s) = navigation s \<or>
         (\<exists>l \<in> set SUPPORTED. \<exists>name. CHR ''/'' \<notin> set name \<and>
            navigation (switch L s) =
              Some ((if sublist ''/jwtime/'' (pathname s) then ''/jwtime/'' else ''/'')
                    @ l @ ''/'' @ name))"
  proof (cases "L \<in> set SUPPORTED")
    case True
    then show ?thesis using nofile
      by (intro disjI2 bexI [of _ L]
            exI [of _ "str_or (last (str_split CHR ''/'' (pathname s))) ''index.html''"])
         (simp_all add: switch_supported)
  next
    case False
    then show ?thesis by (simp add: sw)
  qed
  have a: "set SUPPORTED = {''it'', ''en'', ''es'', ''de'', ''fr'', ''pt_BR''}"
    by (rule SUPPORTED_set)
  have b: "s' \<in> {save L s, switch L s, detectAndSaveCurrentLanguage s} \<longrightarrow>
      (storage s' = storage s \<or>
         (\<exists>l \<in> set SUPPORTED. storage s' = (storage s)(''jwtime-lang'' \<mapsto> l))) \<and>
      (navigation s' = navigation s \<or>
         (\<exists>l \<in> set SUPPORTED. \<exists>name. CHR ''/'' \<notin> set name \<and>
            navigation s' =
              Some ((if sublist ''/jwtime/'' (pathname s) then ''/jwtime/'' else ''/'')
                    @ l @ ''/'' @ name)))"
  proof
    assume "s' \<in> {save L s, switch L s, detectAndSaveCurrentLanguage s}"
    then consider "s' = save L s" | "s' = switch L s" | "s' = s" | l where "s' = save l s"
      using det by auto
    then show "(storage s' = storage s \<or>
         (\<exists>l \<in> set SUPPORTED. storage s' = (storage s)(''jwtime-lang'' \<mapsto> l))) \<and>
      (navigation s' = navigation s \<or>
         (\<exists>l \<in> set SUPPORTED. \<exists>name. CHR ''/'' \<notin> set name \<and>
            navigation s' =
              Some ((if sublist ''/jwtime/'' (pathname s) then ''/jwtime/'' else ''/'')
                    @ l @ ''/'' @ name)))"
    proof cases
      case 1 then show ?thesis using sv [of L] nsv [of L] by simp
    next
      case 2 then show ?thesis using sw_st sw_nav by simp
    next
      case 3 then show ?thesis by simp
    next
      case 4 then show ?thesis using sv [of l] nsv [of l] by simp
    qed
  qed
  have c: "navigation (detectAndSaveCurrentLanguage s) = navigation s"
    using det nsv by auto
  have d: "navigation (switch L s) \<noteq> navigation s \<longrightarrow> L \<in> set SUPPORTED"
    by (cases "L \<in> set SUPPORTED") (simp_all add: sw)
  have e: "storage (switch L s) \<noteq> storage s \<longrightarrow> L \<in> set SUPPORTED"
    by (cases "L \<in> set SUPPORTED") (simp_all add: sw)
  have f: "storage (save L s) \<noteq> storage s \<longrightarrow> L \<in> set SUPPORTED"
    by (simp add: save_def)
  show ?thesis
    using a b nsv [of L] c d e f by blast
qed

theorem only_supported_language_used_witness:
  "detectAndSaveCurrentLanguage example_page
     \<in> {save ''zz'' example_page, switch ''zz'' example_page,
        detectAndSaveCurrentLanguage example_page} \<and>
   storage (detectAndSaveCurrentLanguage example_page) ''jwtime-lang'' = Some ''en'' \<and>
   navigation (detectAndSaveCurrentLanguage example_page) = None \<and>
   storage (save ''de'' example_page) \<noteq> storage example_page \<and>
   storage (switch ''de'' example_page) \<noteq> storage example_page \<and>
   navigation (switch ''de'' example_page) \<noteq> navigation example_page \<and>
   ''de'' \<in> set SUPPORTED"
proof -
  have m: "lang_match ''/en/manual.html'' = Some ''en''"
    by (simp add: LANG_PATTERN_def prefix_code)
  have st: "storage (detectAndSaveCurrentLanguage example_page) ''jwtime-lang'' = Some ''en''"
    using m
    by (simp add: detectAndSaveCurrentLanguage_def example_page_def save_def SUPPORTED_def
        LANG_STORAGE_KEY_def)
  have de: "storage (switch ''de'' example_page) ''jwtime-lang'' = Some ''de''"
    by (simp add: switch_def save_def SUPPORTED_def LANG_STORAGE_KEY_def Let_def)
  have "storage example_page ''jwtime-lang'' = None"
    by (simp add: example_page_def)
  with de have ne: "storage (switch ''de'' example_page) \<noteq> storage example_page"
    by auto
  have "storage (save ''de'' example_page) ''jwtime-lang'' = Some ''de''"
    by (simp add: save_def SUPPORTED_def LANG_STORAGE_KEY_def)
  with \<open>storage example_page ''jwtime-lang'' = None\<close>
  have ne': "storage (save ''de'' example_page) \<noteq> storage example_page"
    by auto
  have nav: "navigation (switch ''de'' example_page) \<noteq> navigation example_page"
    by (simp add: switch_def save_def SUPPORTED_def Let_def example_page_def)
  show ?thesis
    using st ne ne' nav
      only_supported_language_used [of "detectAndSaveCurrentLanguage example_page"
        "''zz''" example_page]
      only_supported_language_used [of "switch ''de'' example_page" "''de''" example_page]
    by (simp add: example_page_def)
qed

text \<open>
  Claim C6. For a language code outside the supported set, \<open>save\<close> and \<open>switch\<close> return the
  state they were given: nothing is stored and no navigation is requested.
\<close>

theorem unsupported_language_noop:
  "L \<notin> set SUPPORTED \<Longrightarrow> save L s = s \<and> switch L s = s"
  by (simp add: save_def switch_def)

theorem unsupported_language_noop_witness:
  "''pt'' \<notin> set SUPPORTED \<and>
   save ''pt'' example_page = example_page \<and> switch ''pt'' example_page = example_page"
proof -
  have h: "''pt'' \<notin> set SUPPORTED"
    by (simp add: SUPPORTED_def)
  show ?thesis
    using h unsupported_language_noop [OF h, of example_page] by simp
qed

subsection \<open>Elements\<close>

lemma update_node_fields [simp]:
  "body (update_node i f s) = body s"
  "storage (update_node i f s) = storage s"
  "pathname (update_node i f s) = pathname s"
  "page_hostname (update_node i f s) = page_hostname s"
  "prefersDark (update_node i f s) = prefersDark s"
  "navigation (update_node i f s) = navigation s"
  "clipboard (update_node i f s) = clipboard s"
  "clipboard_pending (update_node i f s) = clipboard_pending s"
  "timers (update_node i f s) = timers s"
  "length (nodes (update_node i f s)) = length (nodes s)"
  by (simp_all add: update_node_def)

lemma nth_update_node:
  "i < length (nodes s) \<Longrightarrow>
     nodes (update_node i f s) ! j = (if j = i then f (nodes s ! i) else nodes s ! j)"
  by (simp add: update_node_def)

lemma getElementById_Some: "getElementById i s = Some k \<Longrightarrow> k < length (nodes s)"
  by (auto simp: getElementById_def find_Some_iff)

lemma example_page_body: "body example_page < length (nodes example_page)"
  by (simp add: example_page_def example_nodes_def)

subsection \<open>Theme\<close>

text \<open>
  The theorems about the theme are stated for a page whose \<open>document.body\<close> exists
  (\<open>body s < length (nodes s)\<close>), as it does in every parsed HTML document.
\<close>

lemma applyTheme_fields [simp]:
  "body (applyTheme v s) = body s"
  "storage (applyTheme v s) = storage s"
  "prefersDark (applyTheme v s) = prefersDark s"
  "length (nodes (applyTheme v s)) = length (nodes s)"
  by (simp_all add: applyTheme_def Let_def)

lemma classList_applyTheme:
  "body s < length (nodes s) \<Longrightarrow>
     classList (nodes (applyTheme v s) ! body s) =
       removeAll ''light-theme'' (removeAll ''dark-theme'' (classList (nodes s ! body s)))
       @ (if v = ''dark'' then [''dark-theme''] else if v = ''light'' then [''light-theme''] else [])"
  by (simp add: applyTheme_def Let_def nth_update_node classList_add_def classList_remove_def
      DARK_def LIGHT_def)

lemma getCurrentTheme_applyTheme:
  "body s < length (nodes s) \<Longrightarrow> v = DARK \<or> v = LIGHT \<Longrightarrow>
     getCurrentTheme (applyTheme v s) = v"
  by (auto simp: getCurrentTheme_def classList_contains_def classList_applyTheme
      DARK_def LIGHT_def)

lemma getCurrentTheme_cases: "getCurrentTheme s = DARK \<or> getCurrentTheme s = LIGHT"
  by (simp add: getCurrentTheme_def)

lemma updateToggleButton_fields [simp]:
  "body (updateToggleButton v s) = body s"
  "prefersDark (updateToggleButton v s) = prefersDark s"
  "length (nodes (updateToggleButton v s)) = length (nodes s)"
  by (simp_all add: updateToggleButton_def Let_def split: option.splits)

lemma classList_updateToggleButton [simp]:
  "classList (nodes (updateToggleButton v s) ! j) = classList (nodes s ! j)"
proof (cases "getElementById ''theme-toggle'' s")
  case None
  then show ?thesis by (simp add: updateToggleButton_def)
next
  case (Some k)
  then have "k < length (nodes s)" by (rule getElementById_Some)
  with Some show ?thesis
    by (simp add: updateToggleButton_def Let_def nth_update_node setAttribute_def)
qed

lemma saveTheme_fields [simp]:
  "body (saveTheme v s) = body s"
  "prefersDark (saveTheme v s) = prefersDark s"
  "nodes (saveTheme v s) = nodes s"
  by (simp_all add: saveTheme_def)

lemma getCurrentTheme_toggle:
  assumes "body s < length (nodes s)"
  shows "getCurrentTheme (toggle s) = (if getCurrentTheme s = DARK then LIGHT else DARK)"
proof -
  let ?n = "if getCurrentTheme s = DARK then LIGHT else DARK"
  have "getCurrentTheme (toggle s) = getCurrentTheme (applyTheme ?n s)"
    by (simp add: toggle_def Let_def getCurrentTheme_def classList_contains_def)
  also have "\<dots> = ?n"
    using assms by (intro getCurrentTheme_applyTheme) auto
  finally show ?thesis .
qed

lemma toggle_fields [simp]:
  "body (toggle s) = body s"
  "prefersDark (toggle s) = prefersDark s"
  "length (nodes (toggle s)) = length (nodes s)"
  by (simp_all add: toggle_def Let_def)

lemma example_page_theme: "getCurrentTheme example_page = ''light''"
  by (simp add: getCurrentTheme_def classList_contains_def example_page_def example_nodes_def
      new_element_def LIGHT_def)

text \<open>
  Claim C3, as stated: after \<open>applyTheme(value)\<close>, for every value, the body carries
  exactly one of the two theme classes. It fails for the value \<open>auto\<close>: on the example page,
  whose body carries \<open>light-theme\<close>, \<open>applyTheme('auto')\<close> removes both classes and adds
  none.
\<close>

theorem applyTheme_auto_counterexample:
  "\<not> ((''dark-theme'' \<in> set (classList (nodes (applyTheme ''auto'' example_page) ! body example_page))
        \<and> ''light-theme'' \<notin> set (classList (nodes (applyTheme ''auto'' example_page) ! body example_page)))
      \<or> (''dark-theme'' \<notin> set (classList (nodes (applyTheme ''auto'' example_page) ! body example_page))
        \<and> ''light-theme'' \<in> set (classList (nodes (applyTheme ''auto'' example_page) ! body example_page))))"
  by (simp add: classList_applyTheme [OF example_page_body])

text \<open>
  Claim C3, amended. After \<open>applyTheme(value)\<close> the body carries \<open>dark-theme\<close> exactly when
  the value is \<open>dark\<close> and \<open>light-theme\<close> exactly when the value is \<open>light\<close>, hence never
  both, and neither for any other value such as \<open>auto\<close>; every other class of the body is
  as it was, so no class for \<open>auto\<close> is ever applied.
\<close>

theorem applyTheme_classifiers:
  "body s < length (nodes s) \<Longrightarrow>
     (''dark-theme'' \<in> set (classList (nodes (applyTheme v s) ! body s)) \<longleftrightarrow> v = ''dark'') \<and>
     (''light-theme'' \<in> set (classList (nodes (applyTheme v s) ! body s)) \<longleftrightarrow> v = ''light'') \<and>
     \<not> (''dark-theme'' \<in> set (classList (nodes (applyTheme v s) ! body s)) \<and>
        ''light-theme'' \<in> set (classList (nodes (applyTheme v s) ! body s))) \<and>
     (\<forall>c. c \<noteq> ''dark-theme'' \<and> c \<noteq> ''light-theme'' \<longrightarrow>
        (c \<in> set (classList (nodes (applyTheme v s) ! body s))
          \<longleftrightarrow> c \<in> set (classList (nodes s ! body s))))"
  by (auto simp: classList_applyTheme)

theorem applyTheme_classifiers_witness:
  "body example_page < length (nodes example_page) \<and>
   ''dark-theme'' \<in> set (classList (nodes (applyTheme ''dark'' example_page) ! body example_page)) \<and>
   ''light-theme'' \<notin> set (classList (nodes (applyTheme ''dark'' example_page) ! body example_page)) \<and>
   ''dark-theme'' \<notin> set (classList (nodes (applyTheme ''auto'' example_page) ! body example_page)) \<and>
   ''light-theme'' \<notin> set (classList (nodes (applyTheme ''auto'' example_page) ! body example_page)) \<and>
   ''auto'' \<notin> set (classList (nodes (applyTheme ''auto'' example_page) ! body example_page))"
proof -
  have h: "body example_page < length (nodes example_page)"
    by (rule example_page_body)
  have a: "''auto'' \<notin> set (classList (nodes example_page ! body example_page))"
    by (simp add: example_page_def example_nodes_def new_element_def)
  show ?thesis
    using h a applyTheme_classifiers [OF h, of "''dark''"]
      applyTheme_classifiers [OF h, of "''auto''"]
    by simp
qed

text \<open>
  Claim C7. For \<open>v\<close> either \<open>dark\<close> or \<open>light\<close>, \<open>getCurrentTheme()\<close> after \<open>applyTheme(v)\<close>
  returns \<open>v\<close>, whatever classes the body carried before and whatever the colour-scheme
  preference is.
\<close>

theorem applyTheme_getCurrentTheme_roundtrip:
  "body s < length (nodes s) \<Longrightarrow> v \<in> {''dark'', ''light''} \<Longrightarrow>
     getCurrentTheme (applyTheme v s) = v"
  using getCurrentTheme_applyTheme [of s v] by (auto simp: DARK_def LIGHT_def)

theorem applyTheme_getCurrentTheme_roundtrip_witness:
  "body example_page < length (nodes example_page) \<and>
   ''dark'' \<in> {''dark'', ''light''} \<and>
   prefersDark (example_page\<lparr>prefersDark := False\<rparr>) = False \<and>
   getCurrentTheme (applyTheme ''dark'' (example_page\<lparr>prefersDark := False\<rparr>)) = ''dark'' \<and>
   getCurrentTheme (applyTheme ''light'' example_page) = ''light''"
proof -
  have h: "body example_page < length (nodes example_page)"
    by (rule example_page_body)
  have h': "body (example_page\<lparr>prefersDark := False\<rparr>)
              < length (nodes (example_page\<lparr>prefersDark := False\<rparr>))"
    using h by simp
  have d: "''dark'' \<in> {''dark'', ''light''}" and l: "''light'' \<in> {''dark'', ''light''}"
    by simp_all
  show ?thesis
    using h applyTheme_getCurrentTheme_roundtrip [OF h' d]
      applyTheme_getCurrentTheme_roundtrip [OF h l]
    by simp
qed

text \<open>
  Claim C10. With the colour-scheme preference fixed, \<open>getCurrentTheme()\<close> after two calls
  of \<open>toggle()\<close> returns what it returned before the first.
\<close>

theorem toggle_twice_restores_theme:
  "body s < length (nodes s) \<Longrightarrow> getCurrentTheme (toggle (toggle s)) = getCurrentTheme s"
  using getCurrentTheme_cases [of s]
  by (auto simp: getCurrentTheme_toggle DARK_def LIGHT_def)

theorem toggle_twice_restores_theme_witness:
  "body example_page < length (nodes example_page) \<and>
   getCurrentTheme example_page = ''light'' \<and>
   getCurrentTheme (toggle (toggle example_page)) = ''light''"
proof -
  have h: "body example_page < length (nodes example_page)"
    by (rule example_page_body)
  show ?thesis
    using h example_page_theme toggle_twice_restores_theme [OF h] by simp
qed

subsection \<open>Navigation: the mobile menu\<close>

lemma classList_toggle_mem:
  "c \<in> set (classList (classList_toggle c e)) \<longleftrightarrow> c \<notin> set (classList e)"
  by (simp add: classList_toggle_def classList_add_def classList_remove_def)

lemma mobileMenuClick_markers:
  assumes "n < length (nodes t)" "m < length (nodes t)"
  shows "''active'' \<in> set (classList (nodes (run_listener (MobileMenuClick n m) t) ! n))
           \<longleftrightarrow> (if n = m then ''active'' \<in> set (classList (nodes t ! n))
                else ''active'' \<notin> set (classList (nodes t ! n)))"
    and "''active'' \<in> set (classList (nodes (run_listener (MobileMenuClick n m) t) ! m))
           \<longleftrightarrow> (if n = m then ''active'' \<in> set (classList (nodes t ! m))
                else ''active'' \<notin> set (classList (nodes t ! m)))"
  using assms by (simp_all add: nth_update_node classList_toggle_mem)

lemma run_listener_length [simp]:
  "length (nodes (run_listener h t)) = length (nodes t)"
  by (cases h) (simp_all add: Let_def)

lemma funpow_run_listener_length [simp]:
  "length (nodes ((run_listener h ^^ k) t)) = length (nodes t)"
  by (induction k) simp_all

lemma mobileMenuClicks_markers:
  assumes "n < length (nodes t)" "m < length (nodes t)" "n \<noteq> m"
  shows "(''active'' \<in> set (classList (nodes ((run_listener (MobileMenuClick n m) ^^ k) t) ! n))
           \<longleftrightarrow> ((''active'' \<in> set (classList (nodes t ! n))) \<noteq> odd k)) \<and>
         (''active'' \<in> set (classList (nodes ((run_listener (MobileMenuClick n m) ^^ k) t) ! m))
           \<longleftrightarrow> ((''active'' \<in> set (classList (nodes t ! m))) \<noteq> odd k))"
proof (induction k)
  case 0
  show ?case by simp
next
  case (Suc k)
  let ?t = "(run_listener (MobileMenuClick n m) ^^ k) t"
  have "n < length (nodes ?t)" "m < length (nodes ?t)"
    using assms by simp_all
  from mobileMenuClick_markers [OF this] Suc assms(3) show ?case
    by (auto simp del: run_listener.simps)
qed

lemma mobileMenuClicks_agreement:
  assumes "n < length (nodes t)" "m < length (nodes t)"
  shows "(''active'' \<in> set (classList (nodes ((run_listener (MobileMenuClick n m) ^^ k) t) ! n))
           \<longleftrightarrow> ''active'' \<in> set (classList (nodes ((run_listener (MobileMenuClick n m) ^^ k) t) ! m)))
         \<longleftrightarrow> (''active'' \<in> set (classList (nodes t ! n))
           \<longleftrightarrow> ''active'' \<in> set (classList (nodes t ! m)))"
proof (cases "n = m")
  case True
  then show ?thesis by simp
next
  case False
  with mobileMenuClicks_markers [OF assms, of k] show ?thesis by auto
qed

lemma querySelector_Some: "querySelector sel s = Some k \<Longrightarrow> k < length (nodes s)"
  by (auto simp: querySelector_def find_Some_iff)

lemma setupMobileMenu_absent:
  "getElementById ''mobile-menu-toggle'' s = None \<or> querySelector (Compound [Class ''nav'']) s = None
     \<Longrightarrow> setupMobileMenu s = s"
  by (auto simp: setupMobileMenu_def Let_def split: option.splits)

lemma setupMobileMenu_present:
  "getElementById ''mobile-menu-toggle'' s = Some m \<Longrightarrow>
   querySelector (Compound [Class ''nav'']) s = Some n \<Longrightarrow>
     setupMobileMenu s =
       s\<lparr>nodes := (nodes s)[m := (nodes s ! m)\<lparr>listeners :=
                    listeners (nodes s ! m) @ [(''click'', MobileMenuClick n m)]\<rparr>]\<rparr>"
  by (simp add: setupMobileMenu_def Let_def update_node_def addEventListener_def)

lemma click_single:
  "m < length (nodes s) \<Longrightarrow> listeners (nodes s ! m) = [(''click'', h)] \<Longrightarrow> click m s = run_listener h s"
  by (simp add: click_def)


text \<open>
  Claim C4, as stated: for every initial state and every sequence of clicks the menu-toggle
  control and the navigation container agree on the \<open>active\<close> marker. It fails on a page
  whose markup already carries the marker on the navigation container (element 2) and not
  on the control (element 7): after \<open>setupMobileMenu()\<close> and one click the container has
  lost the marker and the control has gained it.
\<close>

theorem mobile_menu_agreement_counterexample:
  "getElementById ''mobile-menu-toggle'' open_nav_page = Some 7 \<and>
   querySelector (Compound [Class ''nav'']) open_nav_page = Some 2 \<and>
   \<not> (is_active (click 7 (setupMobileMenu open_nav_page)) 2
        \<longleftrightarrow> is_active (click 7 (setupMobileMenu open_nav_page)) 7)"
  by code_simp

text \<open>
  Claim C4, amended. \<open>setupMobileMenu()\<close> returns the state unchanged when the control or
  the container is absent; otherwise it appends one click listener to the control and
  changes nothing else, and a click on a control with no other listener runs exactly that
  handler. Every run of the handler keeps the agreement of the two markers as it was: after
  any number of clicks the two elements agree exactly when they agreed before the clicks.
  When the two are different elements, each click flips the marker of both, so after \<open>k\<close>
  clicks each marker is flipped exactly when \<open>k\<close> is odd.
\<close>

theorem setupMobileMenu_lockstep:
  "(getElementById ''mobile-menu-toggle'' s = None \<or>
    querySelector (Compound [Class ''nav'']) s = None \<longrightarrow> setupMobileMenu s = s) \<and>
   (getElementById ''mobile-menu-toggle'' s = Some m \<and>
    querySelector (Compound [Class ''nav'']) s = Some n \<longrightarrow>
      setupMobileMenu s =
        s\<lparr>nodes := (nodes s)[m := (nodes s ! m)\<lparr>listeners :=
                     listeners (nodes s ! m) @ [(''click'', MobileMenuClick n m)]\<rparr>]\<rparr> \<and>
      (listeners (nodes s ! m) = [] \<longrightarrow>
         click m (setupMobileMenu s) = run_listener (MobileMenuClick n m) (setupMobileMenu s)) \<and>
      (\<forall>t k. length (nodes t) = length (nodes s) \<longrightarrow>
         ((is_active ((run_listener (MobileMenuClick n m) ^^ k) t) n
             \<longleftrightarrow> is_active ((run_listener (MobileMenuClick n m) ^^ k) t) m)
           \<longleftrightarrow> (is_active t n \<longleftrightarrow> is_active t m)) \<and>
         (n \<noteq> m \<longrightarrow>
            (is_active ((run_listener (MobileMenuClick n m) ^^ k) t) n
               \<longleftrightarrow> (is_active t n \<noteq> odd k)) \<and>
            (is_active ((run_listener (MobileMenuClick n m) ^^ k) t) m
               \<longleftrightarrow> (is_active t m \<noteq> odd k)))))"
proof (intro conjI impI allI)
  assume "getElementById ''mobile-menu-toggle'' s = None \<or>
    querySelector (Compound [Class ''nav'']) s = None"
  then show "setupMobileMenu s = s" by (rule setupMobileMenu_absent)
next
  assume a: "getElementById ''mobile-menu-toggle'' s = Some m \<and>
    querySelector (Compound [Class ''nav'']) s = Some n"
  then show eq: "setupMobileMenu s =
        s\<lparr>nodes := (nodes s)[m := (nodes s ! m)\<lparr>listeners :=
                     listeners (nodes s ! m) @ [(''click'', MobileMenuClick n m)]\<rparr>]\<rparr>"
    by (simp add: setupMobileMenu_present)
  from a have m: "m < length (nodes s)" and n: "n < length (nodes s)"
    by (auto dest: getElementById_Some querySelector_Some)
  {
    assume "listeners (nodes s ! m) = []"
    with m show "click m (setupMobileMenu s) = run_listener (MobileMenuClick n m) (setupMobileMenu s)"
      by (intro click_single) (simp_all add: eq)
  }
  fix t :: page and k
  assume "length (nodes t) = length (nodes s)"
  with m n have mt: "m < length (nodes t)" and nt: "n < length (nodes t)"
    by simp_all
  show "(is_active ((run_listener (MobileMenuClick n m) ^^ k) t) n
             \<longleftrightarrow> is_active ((run_listener (MobileMenuClick n m) ^^ k) t) m)
           \<longleftrightarrow> (is_active t n \<longleftrightarrow> is_active t m)"
    unfolding is_active_def classList_contains_def
    by (rule mobileMenuClicks_agreement [OF nt mt])
  {
    assume "n \<noteq> m"
    from mobileMenuClicks_markers [OF nt mt this, of k]
    show "is_active ((run_listener (MobileMenuClick n m) ^^ k) t) n
               \<longleftrightarrow> (is_active t n \<noteq> odd k)"
      and "is_active ((run_listener (MobileMenuClick n m) ^^ k) t) m
               \<longleftrightarrow> (is_active t m \<noteq> odd k)"
      unfolding is_active_def classList_contains_def by simp_all
  }
qed


theorem setupMobileMenu_lockstep_witness:
  "getElementById ''mobile-menu-toggle'' example_page = Some 7 \<and>
   querySelector (Compound [Class ''nav'']) example_page = Some 2 \<and>
   listeners (nodes example_page ! 7) = [] \<and>
   length (nodes (setupMobileMenu example_page)) = length (nodes example_page) \<and>
   click 7 (setupMobileMenu example_page)
     = run_listener (MobileMenuClick 2 7) (setupMobileMenu example_page) \<and>
   is_active ((run_listener (MobileMenuClick 2 7) ^^ 3) (setupMobileMenu example_page)) 2 \<and>
   is_active ((run_listener (MobileMenuClick 2 7) ^^ 3) (setupMobileMenu example_page)) 7 \<and>
   getElementById ''mobile-menu-toggle'' bare_page = None \<and>
   setupMobileMenu bare_page = bare_page"
proof -
  have m: "getElementById ''mobile-menu-toggle'' example_page = Some 7" by code_simp
  have n: "querySelector (Compound [Class ''nav'']) example_page = Some 2" by code_simp
  have l: "listeners (nodes example_page ! 7) = []" by code_simp
  have len: "length (nodes (setupMobileMenu example_page)) = length (nodes example_page)"
    by code_simp
  have a2: "\<not> is_active (setupMobileMenu example_page) 2" by code_simp
  have a7: "\<not> is_active (setupMobileMenu example_page) 7" by code_simp
  have b: "getElementById ''mobile-menu-toggle'' bare_page = None" by code_simp
  note T = setupMobileMenu_lockstep [where s = example_page and m = 7 and n = 2]
  from T m n l have c: "click 7 (setupMobileMenu example_page)
     = run_listener (MobileMenuClick 2 7) (setupMobileMenu example_page)"
    by blast
  from T m n have "\<forall>t k. length (nodes t) = length (nodes example_page) \<longrightarrow>
         (2 \<noteq> (7::nat) \<longrightarrow>
            (is_active ((run_listener (MobileMenuClick 2 7) ^^ k) t) 2
               \<longleftrightarrow> (is_active t 2 \<noteq> odd k)) \<and>
            (is_active ((run_listener (MobileMenuClick 2 7) ^^ k) t) 7
               \<longleftrightarrow> (is_active t 7 \<noteq> odd k)))"
    by blast
  from this [rule_format, OF len, of 3] a2 a7
  have d: "is_active ((run_listener (MobileMenuClick 2 7) ^^ 3) (setupMobileMenu example_page)) 2 \<and>
   is_active ((run_listener (MobileMenuClick 2 7) ^^ 3) (setupMobileMenu example_page)) 7"
    by simp
  from setupMobileMenu_lockstep [where s = bare_page] b have e: "setupMobileMenu bare_page = bare_page"
    by blast
  show ?thesis
    using m n l len c d b e by blast
qed

subsection \<open>Navigation: the active link\<close>

lemma fold_update_node_fields [simp]:
  "body (fold (\<lambda>i. update_node i f) is s) = body s"
  "storage (fold (\<lambda>i. update_node i f) is s) = storage s"
  "pathname (fold (\<lambda>i. update_node i f) is s) = pathname s"
  "page_hostname (fold (\<lambda>i. update_node i f) is s) = page_hostname s"
  "length (nodes (fold (\<lambda>i. update_node i f) is s)) = length (nodes s)"
  by (induction "is" arbitrary: s) simp_all

lemma fold_update_node_ex: "\<exists>ns. fold (\<lambda>i. update_node i f) is s = s\<lparr>nodes := ns\<rparr>"
proof (induction "is" arbitrary: s)
  case Nil
  show ?case by (intro exI [of _ "nodes s"]) simp
next
  case (Cons i "is")
  from Cons [of "update_node i f s"] show ?case
    by (auto simp: update_node_def)
qed

lemma fold_update_node_eq:
  "fold (\<lambda>i. update_node i f) is s = s\<lparr>nodes := nodes (fold (\<lambda>i. update_node i f) is s)\<rparr>"
proof -
  obtain ns where ns: "fold (\<lambda>i. update_node i f) is s = s\<lparr>nodes := ns\<rparr>"
    using fold_update_node_ex by blast
  then have "nodes (fold (\<lambda>i. update_node i f) is s) = ns" by simp
  with ns show ?thesis by simp
qed

lemma nth_fold_update_node:
  "distinct is \<Longrightarrow> \<forall>i \<in> set is. i < length (nodes s) \<Longrightarrow>
     nodes (fold (\<lambda>i. update_node i f) is s) ! j
       = (if j \<in> set is then f (nodes s ! j) else nodes s ! j)"
proof (induction "is" arbitrary: s)
  case Nil
  show ?case by simp
next
  case (Cons i "is")
  have "\<forall>k \<in> set is. k < length (nodes (update_node i f s))"
    using Cons.prems by simp
  with Cons have "nodes (fold (\<lambda>i. update_node i f) is (update_node i f s)) ! j
       = (if j \<in> set is then f (nodes (update_node i f s) ! j) else nodes (update_node i f s) ! j)"
    by simp
  with Cons.prems show ?case
    by (auto simp: nth_update_node)
qed

lemma querySelectorAll_distinct: "distinct (querySelectorAll sel s)"
  by (simp add: querySelectorAll_def)

lemma querySelectorAll_bound: "i \<in> set (querySelectorAll sel s) \<Longrightarrow> i < length (nodes s)"
  by (simp add: querySelectorAll_def)

lemma has_ancestor_cong:
  "length ns' = length ns \<Longrightarrow>
   \<forall>j < length ns. parent (ns' ! j) = parent (ns ! j) \<and> P (ns' ! j) = P (ns ! j) \<Longrightarrow>
     has_ancestor k ns' P p = has_ancestor k ns P p"
proof (induction k arbitrary: p)
  case 0
  show ?case by simp
next
  case (Suc k)
  then show ?case by (cases p) auto
qed


lemma setActiveLink_eq:
  "setActiveLink s =
     fold (\<lambda>i. update_node i (markLink (pathname s)))
       (querySelectorAll (Descendant [Class ''nav''] [Tag ''a'']) s) s"
  by (simp add: setActiveLink_def Let_def)

lemma nth_setActiveLink:
  "nodes (setActiveLink s) ! j =
     (if j \<in> set (querySelectorAll (Descendant [Class ''nav''] [Tag ''a'']) s)
      then markLink (pathname s) (nodes s ! j) else nodes s ! j)"
  unfolding setActiveLink_eq
  by (rule nth_fold_update_node) (simp_all add: querySelectorAll_distinct querySelectorAll_bound)

lemma setActiveLink_fields [simp]:
  "pathname (setActiveLink s) = pathname s"
  "length (nodes (setActiveLink s)) = length (nodes s)"
  by (simp_all add: setActiveLink_eq)

lemma markLink_fields [simp]:
  "tag (markLink p e) = tag e"
  "parent (markLink p e) = parent e"
  "attrs (markLink p e) = attrs e"
  "''nav'' \<in> set (classList (markLink p e)) \<longleftrightarrow> ''nav'' \<in> set (classList e)"
  by (simp_all add: markLink_def Let_def classList_add_def classList_remove_def)

lemma markLink_active:
  "''active'' \<in> set (classList (markLink p e)) \<longleftrightarrow>
     sublist (to_string (getAttribute e ''href'')) p \<and> getAttribute e ''href'' \<noteq> Some ''/''"
  by (simp add: markLink_def Let_def classList_add_def classList_remove_def str_includes_sublist)

lemma markLink_idem: "markLink p (markLink p e) = markLink p e"
  by (simp add: markLink_def Let_def classList_add_def classList_remove_def getAttribute_def)

lemma querySelectorAll_setActiveLink:
  "querySelectorAll (Descendant [Class ''nav''] [Tag ''a'']) (setActiveLink s)
     = querySelectorAll (Descendant [Class ''nav''] [Tag ''a'']) s"
proof -
  let ?ns = "nodes s" and ?ns' = "nodes (setActiveLink s)"
  have same: "\<forall>j < length ?ns. parent (?ns' ! j) = parent (?ns ! j) \<and>
                compound [Class ''nav''] (?ns' ! j) = compound [Class ''nav''] (?ns ! j)"
    by (simp add: nth_setActiveLink compound_def)
  have anc: "\<And>p. has_ancestor (length ?ns) ?ns' (compound [Class ''nav'']) p
                = has_ancestor (length ?ns) ?ns (compound [Class ''nav'']) p"
    by (rule has_ancestor_cong [OF _ same]) simp
  have "matches ?ns' (Descendant [Class ''nav''] [Tag ''a''])
           = matches ?ns (Descendant [Class ''nav''] [Tag ''a''])"
    by (rule ext) (simp add: anc, simp add: nth_setActiveLink compound_def)
  then show ?thesis
    by (simp only: querySelectorAll_def setActiveLink_fields)
qed

lemma setActiveLink_idem: "setActiveLink (setActiveLink s) = setActiveLink s"
proof -
  have "nodes (setActiveLink (setActiveLink s)) = nodes (setActiveLink s)"
    by (rule nth_equalityI)
       (simp_all add: nth_setActiveLink [of "setActiveLink s"] querySelectorAll_setActiveLink,
        simp add: nth_setActiveLink markLink_idem)
  moreover have "setActiveLink (setActiveLink s)
                   = (setActiveLink s)\<lparr>nodes := nodes (setActiveLink (setActiveLink s))\<rparr>"
    unfolding setActiveLink_eq [of "setActiveLink s"] by (rule fold_update_node_eq)
  ultimately show ?thesis by simp
qed

text \<open>
  What \<open>setActiveLink()\<close> does to a navigation anchor (an \<open>a\<close> below an element of class
  \<open>nav\<close>): the anchor carries the \<open>active\<close> marker afterwards exactly when the string
  form of what \<open>getAttribute('href')\<close> returned occurs in the current path and the
  attribute is not \<open>/\<close>. For an anchor that has an \<open>href\<close> this is: the \<open>href\<close> occurs in
  the path and is not \<open>/\<close>. A second run gives the state the first run gave.
\<close>

lemma setActiveLink_marks:
  "link \<in> set (querySelectorAll (Descendant [Class ''nav''] [Tag ''a'']) s) \<Longrightarrow>
     (is_active (setActiveLink s) link \<longleftrightarrow>
        sublist (to_string (getAttribute (nodes s ! link) ''href'')) (pathname s) \<and>
        getAttribute (nodes s ! link) ''href'' \<noteq> Some ''/'')"
  by (simp add: is_active_def classList_contains_def nth_setActiveLink markLink_active)

lemma setActiveLink_marks_href:
  "link \<in> set (querySelectorAll (Descendant [Class ''nav''] [Tag ''a'']) s) \<Longrightarrow>
   getAttribute (nodes s ! link) ''href'' = Some h \<Longrightarrow>
     (is_active (setActiveLink s) link \<longleftrightarrow> sublist h (pathname s) \<and> h \<noteq> ''/'')"
  by (simp add: setActiveLink_marks to_string_def)

text \<open>
  Claim C8: \<open>setActiveLink()\<close> marks a navigation anchor active exactly when its \<open>href\<close>
  attribute is a substring of the current path and is not \<open>/\<close>, and a second run changes
  nothing. The second half holds (\<open>setActiveLink_idem\<close>), and the first holds of every
  anchor that has an \<open>href\<close> (\<open>setActiveLink_marks_href\<close>). The code does not guard the
  anchor without one: \<open>getAttribute\<close> returns \<open>null\<close>, \<open>includes\<close> searches for the text
  \<open>null\<close>, and on the page \<open>/docs/null.html\<close> anchor 3, which has no \<open>href\<close>, is marked
  active, while anchor 4, whose \<open>href\<close> \<open>/docs/\<close> occurs in the path, is marked as the claim
  says.
\<close>

theorem setActiveLink_hrefless_anchor_marked:
  "querySelectorAll (Descendant [Class ''nav''] [Tag ''a'']) hrefless_page = [3, 4] \<and>
   getAttribute (nodes hrefless_page ! 3) ''href'' = None \<and>
   pathname hrefless_page = ''/docs/null.html'' \<and>
   is_active (setActiveLink hrefless_page) 3 \<and>
   getAttribute (nodes hrefless_page ! 4) ''href'' = Some ''/docs/'' \<and>
   is_active (setActiveLink hrefless_page) 4"
  by code_simp

subsection \<open>Utils: external links\<close>

lemma update_node_update_node:
  "update_node i f (update_node i g s) = update_node i (\<lambda>e. f (g e)) s"
  by (cases "i < length (nodes s)") (simp_all add: update_node_def list_update_beyond)

lemma setupExternalLinks_fold:
  "page_hostname s = h \<Longrightarrow>
     fold (\<lambda>link s.
             if \<not> str_includes (hostname (nodes s ! link)) (page_hostname s)
             then update_node link (setAttribute ''rel'' ''noopener noreferrer'')
                    (update_node link (setAttribute ''target'' ''_blank'') s)
             else s) is s
     = fold (\<lambda>i. update_node i
               (\<lambda>e. if \<not> sublist h (hostname e)
                    then setAttribute ''rel'' ''noopener noreferrer''
                           (setAttribute ''target'' ''_blank'' e)
                    else e)) is s"
proof (induction "is" arbitrary: s)
  case Nil
  show ?case by simp
next
  case (Cons i "is")
  let ?f = "\<lambda>e. if \<not> sublist h (hostname e)
                    then setAttribute ''rel'' ''noopener noreferrer''
                           (setAttribute ''target'' ''_blank'' e)
                    else e"
  have step: "(if \<not> str_includes (hostname (nodes s ! i)) (page_hostname s)
             then update_node i (setAttribute ''rel'' ''noopener noreferrer'')
                    (update_node i (setAttribute ''target'' ''_blank'') s)
             else s) = update_node i ?f s"
    using Cons.prems
    by (simp add: str_includes_sublist update_node_update_node) (simp add: update_node_def)
  have "page_hostname (update_node i ?f s) = h"
    using Cons.prems by simp
  from Cons.IH [OF this] step show ?case
    by simp
qed

lemma nth_setupExternalLinks:
  "nodes (setupExternalLinks s) ! j =
     (if j \<in> set (querySelectorAll (Compound [Tag ''a'', AttrPrefix ''href'' ''http'']) s)
           \<and> \<not> sublist (page_hostname s) (hostname (nodes s ! j))
      then setAttribute ''rel'' ''noopener noreferrer''
             (setAttribute ''target'' ''_blank'' (nodes s ! j))
      else nodes s ! j)"
  unfolding setupExternalLinks_def setupExternalLinks_fold [OF refl]
  by (subst nth_fold_update_node)
     (simp_all add: querySelectorAll_distinct querySelectorAll_bound)

lemma sublist_after_dot: "sublist h (sub @ ''.'' @ h)"
  by (metis sublist_appendI append.right_neutral append_assoc)

text \<open>
  Claim C1, as stated: an anchor whose \<open>href\<close> begins with \<open>http\<close> is marked to open in a
  new browsing context if and only if its host differs from the page's host. It fails on
  the example page, served from \<open>example.com\<close>: anchor 5 points to \<open>docs.example.com\<close>, a
  different host, and \<open>setupExternalLinks()\<close> gives it neither \<open>target\<close> nor \<open>rel\<close>,
  because the page's host name occurs inside the link's host name.
\<close>

theorem external_link_subdomain_counterexample:
  "5 \<in> set (querySelectorAll (Compound [Tag ''a'', AttrPrefix ''href'' ''http'']) example_page) \<and>
   hostname (nodes example_page ! 5) \<noteq> page_hostname example_page \<and>
   getAttribute (nodes (setupExternalLinks example_page) ! 5) ''target'' = None \<and>
   getAttribute (nodes (setupExternalLinks example_page) ! 5) ''rel'' = None"
  by code_simp


text \<open>
  Claim C1, amended. For every anchor whose \<open>href\<close> begins with \<open>http\<close>: when the page's
  host name does not occur in the anchor's host name, \<open>setupExternalLinks()\<close> sets \<open>target\<close>
  to \<open>_blank\<close> and \<open>rel\<close> to \<open>noopener noreferrer\<close> and changes nothing else of the anchor;
  when the anchor's host is the page's host, or a subdomain of it (the page's host name,
  not empty, after a dot), the anchor is left as it was. An anchor is therefore modified
  only if its host differs from the page's host. Nothing is said of a host name that
  contains the page's host name in any other way.
\<close>

theorem setupExternalLinks_marks:
  "link \<in> set (querySelectorAll (Compound [Tag ''a'', AttrPrefix ''href'' ''http'']) s) \<Longrightarrow>
     (\<not> sublist (page_hostname s) (hostname (nodes s ! link)) \<longrightarrow>
        nodes (setupExternalLinks s) ! link =
          (nodes s ! link)\<lparr>attrs := (attrs (nodes s ! link))
             (''target'' \<mapsto> ''_blank'', ''rel'' \<mapsto> ''noopener noreferrer'')\<rparr>) \<and>
     (hostname (nodes s ! link) = page_hostname s \<longrightarrow>
        nodes (setupExternalLinks s) ! link = nodes s ! link) \<and>
     (page_hostname s \<noteq> [] \<and>
      (\<exists>sub. hostname (nodes s ! link) = sub @ ''.'' @ page_hostname s) \<longrightarrow>
        nodes (setupExternalLinks s) ! link = nodes s ! link) \<and>
     (nodes (setupExternalLinks s) ! link \<noteq> nodes s ! link \<longrightarrow>
        hostname (nodes s ! link) \<noteq> page_hostname s)"
  using sublist_after_dot [of "page_hostname s"]
  by (auto simp: nth_setupExternalLinks setAttribute_def)

theorem setupExternalLinks_marks_witness:
  "6 \<in> set (querySelectorAll (Compound [Tag ''a'', AttrPrefix ''href'' ''http'']) example_page) \<and>
   \<not> sublist (page_hostname example_page) (hostname (nodes example_page ! 6)) \<and>
   getAttribute (nodes (setupExternalLinks example_page) ! 6) ''target'' = Some ''_blank'' \<and>
   getAttribute (nodes (setupExternalLinks example_page) ! 6) ''rel'' = Some ''noopener noreferrer'' \<and>
   nodes (setupExternalLinks example_page) ! 6 \<noteq> nodes example_page ! 6 \<and>
   hostname (nodes example_page ! 6) \<noteq> page_hostname example_page \<and>
   5 \<in> set (querySelectorAll (Compound [Tag ''a'', AttrPrefix ''href'' ''http'']) example_page) \<and>
   page_hostname example_page \<noteq> [] \<and>
   hostname (nodes example_page ! 5) = ''docs'' @ ''.'' @ page_hostname example_page \<and>
   nodes (setupExternalLinks example_page) ! 5 = nodes example_page ! 5 \<and>
   5 \<in> set (querySelectorAll (Compound [Tag ''a'', AttrPrefix ''href'' ''http'']) own_host_page) \<and>
   hostname (nodes own_host_page ! 5) = page_hostname own_host_page \<and>
   nodes (setupExternalLinks own_host_page) ! 5 = nodes own_host_page ! 5"
proof -
  have q: "querySelectorAll (Compound [Tag ''a'', AttrPrefix ''href'' ''http'']) example_page = [5, 6]"
    by code_simp
  have q': "querySelectorAll (Compound [Tag ''a'', AttrPrefix ''href'' ''http'']) own_host_page = [5, 6]"
    by code_simp
  have h6: "\<not> sublist (page_hostname example_page) (hostname (nodes example_page ! 6))"
    by code_simp
  have ne: "page_hostname example_page \<noteq> []"
    by code_simp
  have h5: "hostname (nodes example_page ! 5) = ''docs'' @ ''.'' @ page_hostname example_page"
    by code_simp
  have o5: "hostname (nodes own_host_page ! 5) = page_hostname own_host_page"
    by code_simp
  have t6: "attrs (nodes example_page ! 6) ''target'' = None"
    by code_simp
  have m6: "6 \<in> set (querySelectorAll (Compound [Tag ''a'', AttrPrefix ''href'' ''http'']) example_page)"
    and m5: "5 \<in> set (querySelectorAll (Compound [Tag ''a'', AttrPrefix ''href'' ''http'']) example_page)"
    using q by simp_all
  have m5': "5 \<in> set (querySelectorAll (Compound [Tag ''a'', AttrPrefix ''href'' ''http'']) own_host_page)"
    using q' by simp
  note T6 = setupExternalLinks_marks [OF m6]
  note T5 = setupExternalLinks_marks [OF m5]
  note T5' = setupExternalLinks_marks [OF m5']
  from T6 h6 have e6: "nodes (setupExternalLinks example_page) ! 6 =
          (nodes example_page ! 6)\<lparr>attrs := (attrs (nodes example_page ! 6))
             (''target'' \<mapsto> ''_blank'', ''rel'' \<mapsto> ''noopener noreferrer'')\<rparr>"
    by blast
  have a6: "getAttribute (nodes (setupExternalLinks example_page) ! 6) ''target'' = Some ''_blank'' \<and>
   getAttribute (nodes (setupExternalLinks example_page) ! 6) ''rel'' = Some ''noopener noreferrer''"
    unfolding e6 by (simp add: getAttribute_def)
  have "attrs (nodes (setupExternalLinks example_page) ! 6) ''target''
          \<noteq> attrs (nodes example_page ! 6) ''target''"
    using a6 t6 by (simp add: getAttribute_def)
  then have d6: "nodes (setupExternalLinks example_page) ! 6 \<noteq> nodes example_page ! 6"
    by auto
  with T6 have n6: "hostname (nodes example_page ! 6) \<noteq> page_hostname example_page"
    by blast
  from T5 ne h5 have u5: "nodes (setupExternalLinks example_page) ! 5 = nodes example_page ! 5"
    by blast
  from T5' o5 have u5': "nodes (setupExternalLinks own_host_page) ! 5 = nodes own_host_page ! 5"
    by blast
  show ?thesis
    using m6 h6 a6 d6 n6 m5 ne h5 u5 m5' o5 u5' by blast
qed

subsection \<open>Utils: copy buttons\<close>

lemma has_ancestor_Some:
  "has_ancestor k ns P p \<Longrightarrow> \<exists>i. p = Some i \<and> i < length ns"
  by (cases k; cases p) simp_all

lemma querySelectorAll_Descendant_parent:
  assumes "cb \<in> set (querySelectorAll (Descendant as cs) s)"
  shows "\<exists>pre. parent (nodes s ! cb) = Some pre \<and> pre < length (nodes s)"
  using assms by (auto simp: querySelectorAll_def dest: has_ancestor_Some)

lemma addCopyButton_nodes:
  assumes "parent (nodes s ! cb) = Some pre" "pre < length (nodes s)"
  shows "nodes (addCopyButton cb s) =
           (nodes s)[pre := (nodes s ! pre)\<lparr>style := (style (nodes s ! pre))(''position'' \<mapsto> ''relative'')\<rparr>]
           @ [(new_element ''button'')
                \<lparr>classList := [''copy-code-btn''], textContent := ''Copy'',
                 style := COPY_BUTTON_STYLE, parent := Some pre,
                 listeners := [(''click'', CopyClick cb (length (nodes s)))]\<rparr>]"
  using assms
  by (simp add: addCopyButton_def Let_def createElement_def update_node_def
      addEventListener_def new_element_def list_update_append nth_append)

lemma addCopyButton_old:
  assumes "parent (nodes s ! cb) = Some pre" "pre < length (nodes s)" "j < length (nodes s)"
  shows "\<exists>st. nodes (addCopyButton cb s) ! j = (nodes s ! j)\<lparr>style := st\<rparr>"
proof (cases "j = pre")
  case True
  with assms have "nodes (addCopyButton cb s) ! j
      = (nodes s ! j)\<lparr>style := (style (nodes s ! pre))(''position'' \<mapsto> ''relative'')\<rparr>"
    by (simp add: addCopyButton_nodes nth_append)
  then show ?thesis by blast
next
  case False
  with assms have "nodes (addCopyButton cb s) ! j = nodes s ! j"
    by (simp add: addCopyButton_nodes nth_append)
  then show ?thesis
    by (intro exI [of _ "style (nodes s ! j)"]) simp
qed


lemma fold_addCopyButton:
  assumes "\<forall>cb \<in> set cbs. \<exists>pre. parent (nodes s ! cb) = Some pre \<and> pre < length (nodes s)"
    and "\<forall>cb \<in> set cbs. cb < length (nodes s)"
  shows "length (nodes (fold addCopyButton cbs s)) = length (nodes s) + length cbs \<and>
    (\<forall>j < length (nodes s).
       \<exists>st. nodes (fold addCopyButton cbs s) ! j = (nodes s ! j)\<lparr>style := st\<rparr>) \<and>
    (\<forall>k < length cbs.
       \<exists>st. nodes (fold addCopyButton cbs s) ! (length (nodes s) + k)
         = (new_element ''button'')
             \<lparr>classList := [''copy-code-btn''], textContent := ''Copy'',
              style := st,
              parent := parent (nodes s ! (cbs ! k)),
              listeners := [(''click'', CopyClick (cbs ! k) (length (nodes s) + k))]\<rparr>)"
  using assms
proof (induction cbs arbitrary: s)
  case Nil
  have "\<And>j. nodes s ! j = (nodes s ! j)\<lparr>style := style (nodes s ! j)\<rparr>"
    by simp
  then have "\<forall>j < length (nodes s). \<exists>st. nodes s ! j = (nodes s ! j)\<lparr>style := st\<rparr>"
    by blast
  then show ?case by simp
next
  case (Cons cb cbs)
  let ?s1 = "addCopyButton cb s"
  let ?n = "length (nodes s)"
  let ?fin = "fold addCopyButton cbs ?s1"
  obtain pre where pre: "parent (nodes s ! cb) = Some pre" "pre < ?n"
    using Cons.prems(1) by auto
  have len1: "length (nodes ?s1) = Suc ?n"
    by (simp add: addCopyButton_nodes [OF pre])
  have old1: "\<And>j. j < ?n \<Longrightarrow> \<exists>st. nodes ?s1 ! j = (nodes s ! j)\<lparr>style := st\<rparr>"
    by (rule addCopyButton_old [OF pre])
  have par1: "\<And>j. j < ?n \<Longrightarrow> parent (nodes ?s1 ! j) = parent (nodes s ! j)"
  proof -
    fix j assume "j < ?n"
    from old1 [OF this] obtain st where "nodes ?s1 ! j = (nodes s ! j)\<lparr>style := st\<rparr>" ..
    then show "parent (nodes ?s1 ! j) = parent (nodes s ! j)" by simp
  qed
  have new1: "nodes ?s1 ! ?n = (new_element ''button'')
                \<lparr>classList := [''copy-code-btn''], textContent := ''Copy'',
                 style := COPY_BUTTON_STYLE, parent := Some pre,
                 listeners := [(''click'', CopyClick cb ?n)]\<rparr>"
    by (simp add: addCopyButton_nodes [OF pre] nth_append)
  have p1: "\<forall>c \<in> set cbs. \<exists>pre. parent (nodes ?s1 ! c) = Some pre \<and> pre < length (nodes ?s1)"
  proof
    fix c assume c: "c \<in> set cbs"
    with Cons.prems obtain q where "parent (nodes s ! c) = Some q" "q < ?n" "c < ?n"
      by auto
    with par1 [of c] len1 show "\<exists>pre. parent (nodes ?s1 ! c) = Some pre \<and> pre < length (nodes ?s1)"
      by simp
  qed
  have p2: "\<forall>c \<in> set cbs. c < length (nodes ?s1)"
    using Cons.prems(2) len1 by auto
  note IH = Cons.IH [OF p1 p2]
  from IH have L: "length (nodes ?fin) = ?n + length (cb # cbs)"
    using len1 by simp
  from IH have O: "\<And>j. j < Suc ?n \<Longrightarrow> \<exists>st. nodes ?fin ! j = (nodes ?s1 ! j)\<lparr>style := st\<rparr>"
    using len1 by simp
  have A: "\<forall>j < ?n. \<exists>st. nodes ?fin ! j = (nodes s ! j)\<lparr>style := st\<rparr>"
  proof (intro allI impI)
    fix j assume j: "j < ?n"
    then obtain st where a: "nodes ?fin ! j = (nodes ?s1 ! j)\<lparr>style := st\<rparr>"
      using O [of j] by auto
    from old1 [OF j] obtain st' where b: "nodes ?s1 ! j = (nodes s ! j)\<lparr>style := st'\<rparr>" ..
    have "nodes ?fin ! j = (nodes s ! j)\<lparr>style := st\<rparr>"
      unfolding a b by simp
    then show "\<exists>st. nodes ?fin ! j = (nodes s ! j)\<lparr>style := st\<rparr>" by blast
  qed
  have B: "\<forall>k < length (cb # cbs).
       \<exists>st. nodes ?fin ! (?n + k)
         = (new_element ''button'')
             \<lparr>classList := [''copy-code-btn''], textContent := ''Copy'',
              style := st,
              parent := parent (nodes s ! ((cb # cbs) ! k)),
              listeners := [(''click'', CopyClick ((cb # cbs) ! k) (?n + k))]\<rparr>"
  proof (intro allI impI)
    fix k assume k: "k < length (cb # cbs)"
    show "\<exists>st. nodes ?fin ! (?n + k)
         = (new_element ''button'')
             \<lparr>classList := [''copy-code-btn''], textContent := ''Copy'',
              style := st,
              parent := parent (nodes s ! ((cb # cbs) ! k)),
              listeners := [(''click'', CopyClick ((cb # cbs) ! k) (?n + k))]\<rparr>"
    proof (cases k)
      case 0
      obtain st where a: "nodes ?fin ! ?n = (nodes ?s1 ! ?n)\<lparr>style := st\<rparr>"
        using O [of ?n] by auto
      have "nodes ?fin ! (?n + k) = (new_element ''button'')
             \<lparr>classList := [''copy-code-btn''], textContent := ''Copy'',
              style := st,
              parent := parent (nodes s ! ((cb # cbs) ! k)),
              listeners := [(''click'', CopyClick ((cb # cbs) ! k) (?n + k))]\<rparr>"
        using 0 pre(1) a new1 by simp
      then show ?thesis by blast
    next
      case (Suc k')
      with k have k': "k' < length cbs" by simp
      have c: "cbs ! k' < ?n"
        using Cons.prems(2) k' by simp
      from IH k' obtain st where "nodes ?fin ! (length (nodes ?s1) + k')
         = (new_element ''button'')
             \<lparr>classList := [''copy-code-btn''], textContent := ''Copy'',
              style := st,
              parent := parent (nodes ?s1 ! (cbs ! k')),
              listeners := [(''click'', CopyClick (cbs ! k') (length (nodes ?s1) + k'))]\<rparr>"
        by blast
      then have "nodes ?fin ! (?n + k) = (new_element ''button'')
             \<lparr>classList := [''copy-code-btn''], textContent := ''Copy'',
              style := st,
              parent := parent (nodes s ! ((cb # cbs) ! k)),
              listeners := [(''click'', CopyClick ((cb # cbs) ! k) (?n + k))]\<rparr>"
        using Suc len1 par1 [OF c] by simp
      then show ?thesis by blast
    qed
  qed
  from L A B show ?case by simp
qed


lemma click_CopyClick:
  "listeners (nodes t ! b) = [(''click'', CopyClick cb b)] \<Longrightarrow>
     click b t = t\<lparr>clipboard_pending :=
                    clipboard_pending t @ [(textContent (nodes t ! cb), CopyWritten b)]\<rparr>"
  by (simp add: click_def Let_def)

lemma settle_rejected:
  "settle_clipboard (length (clipboard_pending t)) False
     (t\<lparr>clipboard_pending := clipboard_pending t @ [w]\<rparr>) = t"
  by (simp add: settle_clipboard_def Let_def)

lemma settle_fulfilled:
  "settle_clipboard (length (clipboard_pending t)) True
     (t\<lparr>clipboard_pending := clipboard_pending t @ [(code, CopyWritten b)]\<rparr>)
   = t\<lparr>nodes := (nodes t)[b := (nodes t ! b)\<lparr>textContent := ''Copied!''\<rparr>],
       clipboard := code,
       timers := timers t @ [(2000, CopyRevert b)]\<rparr>"
  by (simp add: settle_clipboard_def Let_def update_node_def)

lemma copy_click_fulfilled:
  assumes "b < length (nodes t)" "listeners (nodes t ! b) = [(''click'', CopyClick cb b)]"
  shows "textContent (nodes (settle_clipboard (length (clipboard_pending t)) True (click b t)) ! b)
           = ''Copied!''"
    and "timers (settle_clipboard (length (clipboard_pending t)) True (click b t))
           = timers t @ [(2000, CopyRevert b)]"
    and "clipboard (settle_clipboard (length (clipboard_pending t)) True (click b t))
           = textContent (nodes t ! cb)"
    and "textContent (nodes (fire_timer (length (timers t))
            (settle_clipboard (length (clipboard_pending t)) True (click b t))) ! b) = ''Copy''"
  using assms
  by (simp_all add: click_CopyClick settle_fulfilled fire_timer_def update_node_def)

lemma copy_click_rejected:
  assumes "listeners (nodes t ! b) = [(''click'', CopyClick cb b)]"
  shows "settle_clipboard (length (clipboard_pending t)) False (click b t) = t"
  using assms by (simp add: click_CopyClick settle_rejected)


lemma addCopyButtons_installed:
  assumes "k < length (querySelectorAll (Descendant [Tag ''pre''] [Tag ''code'']) s)"
  shows "length (nodes (addCopyButtonsToCodeBlocks s))
           = length (nodes s) + length (querySelectorAll (Descendant [Tag ''pre''] [Tag ''code'']) s)"
    and "\<exists>st. nodes (addCopyButtonsToCodeBlocks s) ! (length (nodes s) + k)
         = (new_element ''button'')
             \<lparr>classList := [''copy-code-btn''], textContent := ''Copy'',
              style := st,
              parent := parent (nodes s ! (querySelectorAll (Descendant [Tag ''pre''] [Tag ''code'']) s ! k)),
              listeners := [(''click'',
                 CopyClick (querySelectorAll (Descendant [Tag ''pre''] [Tag ''code'']) s ! k)
                   (length (nodes s) + k))]\<rparr>"
proof -
  let ?cbs = "querySelectorAll (Descendant [Tag ''pre''] [Tag ''code'']) s"
  have 1: "\<forall>cb \<in> set ?cbs. \<exists>pre. parent (nodes s ! cb) = Some pre \<and> pre < length (nodes s)"
    by (blast dest: querySelectorAll_Descendant_parent)
  have 2: "\<forall>cb \<in> set ?cbs. cb < length (nodes s)"
    by (blast dest: querySelectorAll_bound)
  note F = fold_addCopyButton [OF 1 2, folded addCopyButtonsToCodeBlocks_def]
  from F show "length (nodes (addCopyButtonsToCodeBlocks s)) = length (nodes s) + length ?cbs"
    by blast
  from F assms show "\<exists>st. nodes (addCopyButtonsToCodeBlocks s) ! (length (nodes s) + k)
         = (new_element ''button'')
             \<lparr>classList := [''copy-code-btn''], textContent := ''Copy'',
              style := st,
              parent := parent (nodes s ! (?cbs ! k)),
              listeners := [(''click'', CopyClick (?cbs ! k) (length (nodes s) + k))]\<rparr>"
    by blast
qed

text \<open>
  Claim C9. \<open>addCopyButtonsToCodeBlocks()\<close> creates one button per element matched by
  \<open>pre code\<close>: the button of the \<open>k\<close>-th match is the \<open>k\<close>-th new element, is labelled
  \<open>Copy\<close> and has one click listener. In any later state in which the button has that
  listener, a click followed by the fulfilment of the clipboard write sets the label to
  \<open>Copied!\<close> and adds to the timer queue one timer of 2000 ms, which sets the label to
  \<open>Copy\<close> when it fires; a click followed by the rejection of the write leaves the state,
  and so the label, as it was before the click.
\<close>

theorem copy_button_click_outcomes:
  "k < length (querySelectorAll (Descendant [Tag ''pre''] [Tag ''code'']) s) \<Longrightarrow>
   cb = querySelectorAll (Descendant [Tag ''pre''] [Tag ''code'']) s ! k \<Longrightarrow>
   b = length (nodes s) + k \<Longrightarrow>
     length (nodes (addCopyButtonsToCodeBlocks s))
       = length (nodes s) + length (querySelectorAll (Descendant [Tag ''pre''] [Tag ''code'']) s) \<and>
     b < length (nodes (addCopyButtonsToCodeBlocks s)) \<and>
     tag (nodes (addCopyButtonsToCodeBlocks s) ! b) = ''button'' \<and>
     textContent (nodes (addCopyButtonsToCodeBlocks s) ! b) = ''Copy'' \<and>
     listeners (nodes (addCopyButtonsToCodeBlocks s) ! b) = [(''click'', CopyClick cb b)] \<and>
     (\<forall>t. b < length (nodes t) \<and> listeners (nodes t ! b) = [(''click'', CopyClick cb b)] \<longrightarrow>
        textContent (nodes (settle_clipboard (length (clipboard_pending t)) True (click b t)) ! b)
          = ''Copied!'' \<and>
        timers (settle_clipboard (length (clipboard_pending t)) True (click b t))
          = timers t @ [(2000, CopyRevert b)] \<and>
        textContent (nodes (fire_timer (length (timers t))
            (settle_clipboard (length (clipboard_pending t)) True (click b t))) ! b) = ''Copy'' \<and>
        settle_clipboard (length (clipboard_pending t)) False (click b t) = t)"
proof (intro conjI allI impI)
  assume k: "k < length (querySelectorAll (Descendant [Tag ''pre''] [Tag ''code'']) s)"
    and cb: "cb = querySelectorAll (Descendant [Tag ''pre''] [Tag ''code'']) s ! k"
    and b: "b = length (nodes s) + k"
  from addCopyButtons_installed(2) [OF k] obtain st where
    e: "nodes (addCopyButtonsToCodeBlocks s) ! b
         = (new_element ''button'')
             \<lparr>classList := [''copy-code-btn''], textContent := ''Copy'',
              style := st, parent := parent (nodes s ! cb),
              listeners := [(''click'', CopyClick cb b)]\<rparr>"
    unfolding cb b by blast
  show "length (nodes (addCopyButtonsToCodeBlocks s))
       = length (nodes s) + length (querySelectorAll (Descendant [Tag ''pre''] [Tag ''code'']) s)"
    by (rule addCopyButtons_installed(1) [OF k])
  show "b < length (nodes (addCopyButtonsToCodeBlocks s))"
    using addCopyButtons_installed(1) [OF k] k b by simp
  show "tag (nodes (addCopyButtonsToCodeBlocks s) ! b) = ''button''"
    unfolding e by (simp add: new_element_def)
  show "textContent (nodes (addCopyButtonsToCodeBlocks s) ! b) = ''Copy''"
    unfolding e by simp
  show "listeners (nodes (addCopyButtonsToCodeBlocks s) ! b) = [(''click'', CopyClick cb b)]"
    unfolding e by simp
  fix t :: page
  assume t: "b < length (nodes t) \<and> listeners (nodes t ! b) = [(''click'', CopyClick cb b)]"
  then have t1: "b < length (nodes t)" and t2: "listeners (nodes t ! b) = [(''click'', CopyClick cb b)]"
    by simp_all
  show "textContent (nodes (settle_clipboard (length (clipboard_pending t)) True (click b t)) ! b)
          = ''Copied!''"
    by (rule copy_click_fulfilled(1) [OF t1 t2])
  show "timers (settle_clipboard (length (clipboard_pending t)) True (click b t))
          = timers t @ [(2000, CopyRevert b)]"
    by (rule copy_click_fulfilled(2) [OF t1 t2])
  show "textContent (nodes (fire_timer (length (timers t))
            (settle_clipboard (length (clipboard_pending t)) True (click b t))) ! b) = ''Copy''"
    by (rule copy_click_fulfilled(4) [OF t1 t2])
  show "settle_clipboard (length (clipboard_pending t)) False (click b t) = t"
    by (rule copy_click_rejected [OF t2])
qed

theorem copy_button_click_outcomes_witness:
  "(0::nat) < length (querySelectorAll (Descendant [Tag ''pre''] [Tag ''code'']) example_page) \<and>
   querySelectorAll (Descendant [Tag ''pre''] [Tag ''code'']) example_page ! 0 = 10 \<and>
   length (nodes example_page) + 0 = 11 \<and>
   11 < length (nodes (addCopyButtonsToCodeBlocks example_page)) \<and>
   listeners (nodes (addCopyButtonsToCodeBlocks example_page) ! 11) = [(''click'', CopyClick 10 11)] \<and>
   textContent (nodes (settle_clipboard 0 True
       (click 11 (addCopyButtonsToCodeBlocks example_page))) ! 11) = ''Copied!'' \<and>
   timers (settle_clipboard 0 True (click 11 (addCopyButtonsToCodeBlocks example_page)))
     = [(2000, CopyRevert 11)] \<and>
   textContent (nodes (fire_timer 0 (settle_clipboard 0 True
       (click 11 (addCopyButtonsToCodeBlocks example_page)))) ! 11) = ''Copy'' \<and>
   settle_clipboard 0 False (click 11 (addCopyButtonsToCodeBlocks example_page))
     = addCopyButtonsToCodeBlocks example_page"
proof -
  have q: "querySelectorAll (Descendant [Tag ''pre''] [Tag ''code'']) example_page = [10]"
    by code_simp
  have n: "length (nodes example_page) = 11"
    by code_simp
  have p: "clipboard_pending (addCopyButtonsToCodeBlocks example_page) = []"
    by code_simp
  have ti: "timers (addCopyButtonsToCodeBlocks example_page) = []"
    by code_simp
  have k: "0 < length (querySelectorAll (Descendant [Tag ''pre''] [Tag ''code'']) example_page)"
    using q by simp
  have cb: "10 = querySelectorAll (Descendant [Tag ''pre''] [Tag ''code'']) example_page ! 0"
    using q by simp
  have b: "11 = length (nodes example_page) + 0"
    using n by simp
  note T = copy_button_click_outcomes [OF k cb b]
  from T have l: "11 < length (nodes (addCopyButtonsToCodeBlocks example_page)) \<and>
     listeners (nodes (addCopyButtonsToCodeBlocks example_page) ! 11) = [(''click'', CopyClick 10 11)]"
    by blast
  from T have "\<forall>t. 11 < length (nodes t) \<and> listeners (nodes t ! 11) = [(''click'', CopyClick 10 11)] \<longrightarrow>
        textContent (nodes (settle_clipboard (length (clipboard_pending t)) True (click 11 t)) ! 11)
          = ''Copied!'' \<and>
        timers (settle_clipboard (length (clipboard_pending t)) True (click 11 t))
          = timers t @ [(2000, CopyRevert 11)] \<and>
        textContent (nodes (fire_timer (length (timers t))
            (settle_clipboard (length (clipboard_pending t)) True (click 11 t))) ! 11) = ''Copy'' \<and>
        settle_clipboard (length (clipboard_pending t)) False (click 11 t) = t"
    by blast
  from this [rule_format, OF l] p ti q n l show ?thesis
    by simp
qed


end
